theory Spec2Isabelle
  imports Main "HOL-Library.AList"
begin

section \<open>Documents, collections and the document store\<close>

text \<open>
  The application keeps its data in a remote document store (Firestore). A document is a
  JavaScript object: an association list from field names to values, read with
  \<open>map_of\<close>. A store timestamp is modelled by its milliseconds since the epoch, which is
  the precision of every \<open>Timestamp.now()\<close> the code writes; \<open>VInvalidTime\<close> is the
  timestamp that \<open>Timestamp.fromDate\<close> builds from an invalid date.
\<close>

datatype val =
    VNull
  | VBool bool
  | VNum int
  | VStr string
  | VTime int
  | VInvalidTime
  | VArr "val list"
  | VObj "(string \<times> val) list"

type_synonym obj = "(string \<times> val) list"

text \<open>A collection lists its documents by id; the store maps a collection name to it.\<close>

type_synonym coll = "(string \<times> obj) list"
type_synonym store = "string \<Rightarrow> coll"

definition POSTS_COLLECTION :: string where "POSTS_COLLECTION = ''posts''"
definition COMMENTS_COLLECTION :: string where "COMMENTS_COLLECTION = ''comments''"
definition BOOKMARKS_COLLECTION :: string where "BOOKMARKS_COLLECTION = ''bookmarks''"
definition SETTINGS_COLLECTION :: string where "SETTINGS_COLLECTION = ''settings''"
definition USERS_COLLECTION :: string where "USERS_COLLECTION = ''users''"
definition GLOBAL_SETTINGS_ID :: string where "GLOBAL_SETTINGS_ID = ''global-settings''"

subsection \<open>Errors\<close>

text \<open>
  Every \<open>throw new Error(...)\<close> of the source is a constructor of \<open>msg\<close>, carrying the
  values the source interpolates into the text; \<open>Raw\<close> is the text of an error raised by
  the store's SDK. An error has the optional \<open>code\<close> of SDK errors and its message.
\<close>

datatype msg =
    Raw string
  | PostNotFound
  | OnlyOwnPostEdit
  | OnlyOwnPostMove
  | AlreadyInCategory
  | RequiredFieldsMissing
  | PostCreateFailed
  | CommentNotFound
  | OnlyOwnCommentDelete
  | BookmarkIdsRequired
  | AlreadyBookmarked
  | BookmarkNotFound
  | PostsFetchFailed
  | CategoryFetchFailed string
  | IndexRequired string "string option"
  | AdminAuthRequired
  | SettingsNotFound
  | InvalidCategoryId
  | SettingsInitFailed msg
  | CategoryIdInUse string
  | CategoryNameInUse string
  | CategoryNotFound string
  | NoTargetCategory
  | CategoryIdMissing "val option"
  | CategoryIdUnknown "val option"
  | RetriesExceeded
  | CategoryAddFailed msg
  | CategoryUpdateFailed msg
  | CategoryDeleteFailed msg
  | CategoryReorderFailed msg
  | InvalidJson
  | InvalidBackupFormat
  | CollectionFetchFailed string msg
  | CollectionClearFailed string msg
  | BackupFailed msg
  | RestoreFailed msg

datatype error = Error (code: "string option") (message: msg)

text \<open>\<open>new Error(m)\<close> has no code.\<close>

abbreviation new_Error :: "msg \<Rightarrow> error" where
  "new_Error m \<equiv> Error None m"

text \<open>
  The \<open>catch\<close> block that closes the repository functions:
  \<open>throw new Error(error instanceof Error ? error.message : fallback)\<close>. Everything
  thrown in this model is an \<open>Error\<close>, so the message is kept and the code is dropped.
\<close>

definition rethrow :: "error \<Rightarrow> error" where
  "rethrow e = new_Error (message e)"

subsection \<open>The SDK calls the code makes\<close>

text \<open>
  A call to the store can fail for reasons outside the program (network, quota, missing
  index). The environment is a function that says, for each kind of SDK call a
  repository function makes, whether that call raises.
\<close>

datatype sdk_call = GetDoc | GetDocs | SetDoc | UpdateDoc | DeleteDoc | RunTransaction

type_synonym faults = "sdk_call \<Rightarrow> error option"

definition no_faults :: faults where
  "no_faults = (\<lambda>_. None)"

text \<open>
  A field of an update payload is a plain value or one of the SDK's sentinels
  \<open>increment(n)\<close> and \<open>arrayRemove(x)\<close>.
\<close>

datatype field_write = Put val | Increment int | ArrayRemove val

definition applyWrite :: "val option \<Rightarrow> field_write \<Rightarrow> val" where
  "applyWrite old w =
     (case w of
        Put v \<Rightarrow> v
      | Increment n \<Rightarrow> (case old of Some (VNum m) \<Rightarrow> VNum (m + n) | _ \<Rightarrow> VNum n)
      | ArrayRemove x \<Rightarrow> (case old of Some (VArr xs) \<Rightarrow> VArr (removeAll x xs) | _ \<Rightarrow> VArr []))"

fun applyWrites :: "obj \<Rightarrow> (string \<times> field_write) list \<Rightarrow> obj" where
  "applyWrites d [] = d"
| "applyWrites d ((k, w) # ws) = applyWrites (AList.update k (applyWrite (map_of d k) w) d) ws"

definition getDoc :: "store \<Rightarrow> string \<Rightarrow> string \<Rightarrow> obj option" where
  "getDoc db c i = map_of (db c) i"

definition not_found :: error where
  "not_found = Error (Some ''not-found'') (Raw ''No document to update'')"

text \<open>\<open>updateDoc\<close> merges the payload into an existing document and fails on a missing one.\<close>

definition updateDoc :: "store \<Rightarrow> string \<Rightarrow> string \<Rightarrow> (string \<times> field_write) list \<Rightarrow> error + store" where
  "updateDoc db c i ws =
     (case map_of (db c) i of
        None \<Rightarrow> Inl not_found
      | Some d \<Rightarrow> Inr (db(c := AList.update i (applyWrites d ws) (db c))))"

text \<open>\<open>setDoc\<close> creates or replaces the document; \<open>deleteDoc\<close> removes it.\<close>

definition setDoc :: "store \<Rightarrow> string \<Rightarrow> string \<Rightarrow> obj \<Rightarrow> store" where
  "setDoc db c i d = db(c := AList.update i d (db c))"

definition deleteDoc :: "store \<Rightarrow> string \<Rightarrow> string \<Rightarrow> store" where
  "deleteDoc db c i = db(c := AList.delete i (db c))"



section \<open>Post repository\<close>





section \<open>Example stores\<close>

text \<open>One post \<open>p1\<close> of author \<open>u1\<close> in category \<open>general\<close>.\<close>

definition post1 :: obj where
  "post1 = [(''title'', VStr ''hello''), (''category'', VStr ''general''),
            (''authorId'', VStr ''u1''), (''createdAt'', VTime 1), (''updatedAt'', VTime 1),
            (''commentCount'', VNum 0)]"

definition db_one_post :: store where
  "db_one_post = (\<lambda>_. [])(''posts'' := [(''p1'', post1)])"

section \<open>Comment repository\<close>

text \<open>
  \<open>createComment(commentData)\<close>. The comment's id is generated by the SDK
  (\<open>doc(collection(db, COMMENTS_COLLECTION))\<close>): it is the argument \<open>newId\<close>. The author
  is an object, which JavaScript always takes as true. The two writes are buffered in one
  transaction: when the post to update is missing the transaction fails as a whole and
  the comment is not written.
\<close>

definition createComment :: "faults \<Rightarrow> int \<Rightarrow> string \<Rightarrow> store \<Rightarrow> string \<Rightarrow> string \<Rightarrow> obj \<Rightarrow> string \<Rightarrow> (error + string) \<times> store" where
  "createComment env now newId db postId content author authorId =
     (if postId = [] \<or> content = [] \<or> authorId = []
      then (Inl (rethrow (new_Error RequiredFieldsMissing)), db)
      else
        (case env RunTransaction of
           Some e \<Rightarrow> (Inl (rethrow e), db)
         | None \<Rightarrow>
            (let db1 = setDoc db COMMENTS_COLLECTION newId
                         [(''postId'', VStr postId), (''content'', VStr content),
                          (''author'', VObj author), (''authorId'', VStr authorId),
                          (''createdAt'', VTime now), (''updatedAt'', VTime now)]
             in case updateDoc db1 POSTS_COLLECTION postId
                       [(''commentCount'', Increment 1), (''updatedAt'', Put (VTime now))] of
                  Inl e \<Rightarrow> (Inl (rethrow e), db)
                | Inr db2 \<Rightarrow> (Inr newId, db2))))"

text \<open>
  \<open>deleteComment(commentId, postId, userId)\<close>: the author check reads the comment outside
  the transaction; the transaction deletes the comment and decrements the counter of the
  post named by the argument \<open>postId\<close>.
\<close>

definition deleteComment :: "faults \<Rightarrow> int \<Rightarrow> store \<Rightarrow> string \<Rightarrow> string \<Rightarrow> string \<Rightarrow> (error + unit) \<times> store" where
  "deleteComment env now db commentId postId userId =
     (case env GetDoc of
        Some e \<Rightarrow> (Inl (rethrow e), db)
      | None \<Rightarrow>
         (case getDoc db COMMENTS_COLLECTION commentId of
            None \<Rightarrow> (Inl (rethrow (new_Error CommentNotFound)), db)
          | Some c \<Rightarrow>
             if map_of c ''authorId'' \<noteq> Some (VStr userId)
             then (Inl (rethrow (new_Error OnlyOwnCommentDelete)), db)
             else
               (case env RunTransaction of
                  Some e \<Rightarrow> (Inl (rethrow e), db)
                | None \<Rightarrow>
                   (let db1 = deleteDoc db COMMENTS_COLLECTION commentId
                    in case updateDoc db1 POSTS_COLLECTION postId
                              [(''commentCount'', Increment (- 1)), (''updatedAt'', Put (VTime now))] of
                         Inl e \<Rightarrow> (Inl (rethrow e), db)
                       | Inr db2 \<Rightarrow> (Inr (), db2)))))"

text \<open>A sequence of calls, each with its own environment, clock and generated id.\<close>

datatype comment_call =
    CreateCall faults int string string string obj string
  | DeleteCall faults int string string string

fun comment_step :: "store \<Rightarrow> comment_call \<Rightarrow> store" where
  "comment_step db (CreateCall env now newId postId content author authorId) =
     snd (createComment env now newId db postId content author authorId)"
| "comment_step db (DeleteCall env now commentId postId userId) =
     snd (deleteComment env now db commentId postId userId)"

fun comment_run :: "store \<Rightarrow> comment_call list \<Rightarrow> store" where
  "comment_run db [] = db"
| "comment_run db (c # cs) = comment_run (comment_step db c) cs"

text \<open>The comment documents that reference a post, and the post's stored counter.\<close>

definition commentsOf :: "store \<Rightarrow> string \<Rightarrow> (string \<times> obj) list" where
  "commentsOf db p = filter (\<lambda>(i, c). map_of c ''postId'' = Some (VStr p)) (db COMMENTS_COLLECTION)"

definition commentCount :: "store \<Rightarrow> string \<Rightarrow> val option" where
  "commentCount db p =
     (case getDoc db POSTS_COLLECTION p of None \<Rightarrow> None | Some d \<Rightarrow> map_of d ''commentCount'')"

text \<open>
  What the counter invariant needs of a sequence of calls: a generated id is new, and a
  \<open>deleteComment\<close> names the post its comment references.
\<close>

fun call_ok :: "store \<Rightarrow> comment_call \<Rightarrow> bool" where
  "call_ok db (CreateCall env now newId postId content author authorId) =
     (newId \<notin> fst ` set (db COMMENTS_COLLECTION))"
| "call_ok db (DeleteCall env now commentId postId userId) =
     (case getDoc db COMMENTS_COLLECTION commentId of
        None \<Rightarrow> True
      | Some c \<Rightarrow> map_of c ''postId'' = Some (VStr postId))"

fun calls_ok :: "store \<Rightarrow> comment_call list \<Rightarrow> bool" where
  "calls_ok db [] = True"
| "calls_ok db (c # cs) = (call_ok db c \<and> calls_ok (comment_step db c) cs)"

section \<open>Bookmark repository\<close>

definition bookmarksOf :: "store \<Rightarrow> string \<Rightarrow> string \<Rightarrow> (string \<times> obj) list" where
  "bookmarksOf db userId postId =
     filter (\<lambda>(i, b). map_of b ''userId'' = Some (VStr userId) \<and> map_of b ''postId'' = Some (VStr postId))
       (db BOOKMARKS_COLLECTION)"

text \<open>\<open>isBookmarked\<close> answers \<open>false\<close> when the query throws.\<close>

definition isBookmarked :: "faults \<Rightarrow> store \<Rightarrow> string \<Rightarrow> string \<Rightarrow> bool" where
  "isBookmarked env db userId postId =
     (if userId = [] \<or> postId = [] then False
      else case env GetDocs of
             Some e \<Rightarrow> False
           | None \<Rightarrow> take 1 (bookmarksOf db userId postId) \<noteq> [])"

definition addBookmark :: "faults \<Rightarrow> int \<Rightarrow> string \<Rightarrow> store \<Rightarrow> string \<Rightarrow> string \<Rightarrow> (error + string) \<times> store" where
  "addBookmark env now newId db userId postId =
     (if userId = [] \<or> postId = [] then (Inl (rethrow (new_Error BookmarkIdsRequired)), db)
      else if isBookmarked env db userId postId
      then (Inl (rethrow (new_Error AlreadyBookmarked)), db)
      else case env SetDoc of
             Some e \<Rightarrow> (Inl (rethrow e), db)
           | None \<Rightarrow>
              (Inr newId,
               setDoc db BOOKMARKS_COLLECTION newId
                 [(''userId'', VStr userId), (''postId'', VStr postId), (''createdAt'', VTime now)]))"

definition removeBookmark :: "faults \<Rightarrow> store \<Rightarrow> string \<Rightarrow> string \<Rightarrow> (error + unit) \<times> store" where
  "removeBookmark env db userId postId =
     (if userId = [] \<or> postId = [] then (Inl (rethrow (new_Error BookmarkIdsRequired)), db)
      else case env GetDocs of
             Some e \<Rightarrow> (Inl (rethrow e), db)
           | None \<Rightarrow>
              (case take 1 (bookmarksOf db userId postId) of
                 [] \<Rightarrow> (Inl (rethrow (new_Error BookmarkNotFound)), db)
               | bookmarkDoc # _ \<Rightarrow>
                  (case env DeleteDoc of
                     Some e \<Rightarrow> (Inl (rethrow e), db)
                   | None \<Rightarrow> (Inr (), deleteDoc db BOOKMARKS_COLLECTION (fst bookmarkDoc)))))"

datatype bookmark_call =
    AddCall faults int string string string
  | RemoveCall faults string string

fun bookmark_step :: "store \<Rightarrow> bookmark_call \<Rightarrow> store" where
  "bookmark_step db (AddCall env now newId userId postId) =
     snd (addBookmark env now newId db userId postId)"
| "bookmark_step db (RemoveCall env userId postId) = snd (removeBookmark env db userId postId)"

fun bookmark_run :: "store \<Rightarrow> bookmark_call list \<Rightarrow> store" where
  "bookmark_run db [] = db"
| "bookmark_run db (c # cs) = bookmark_run (bookmark_step db c) cs"

text \<open>The existence query of every \<open>addBookmark\<close> of the sequence succeeds.\<close>

fun query_succeeds :: "bookmark_call \<Rightarrow> bool" where
  "query_succeeds (AddCall env now newId userId postId) = (env GetDocs = None)"
| "query_succeeds (RemoveCall env userId postId) = True"

text \<open>Two posts; the comment \<open>c1\<close> of author \<open>u1\<close> references \<open>p1\<close>.\<close>

definition comment1 :: obj where
  "comment1 = [(''postId'', VStr ''p1''), (''content'', VStr ''first''), (''author'', VObj []),
               (''authorId'', VStr ''u1''), (''createdAt'', VTime 2), (''updatedAt'', VTime 2)]"

definition db_two_posts :: store where
  "db_two_posts = (\<lambda>_. [])
     (''posts'' := [(''p1'', AList.update ''commentCount'' (VNum 1) post1), (''p2'', post1)],
      ''comments'' := [(''c1'', comment1)])"

definition three_calls :: "comment_call list" where
  "three_calls = [CreateCall no_faults 6 ''c1'' ''p1'' ''one'' [] ''u1'',
                  CreateCall no_faults 7 ''c2'' ''p1'' ''two'' [] ''u2'',
                  DeleteCall no_faults 8 ''c1'' ''p1'' ''u1'']"

text \<open>A store where user \<open>u1\<close> has bookmarked post \<open>p1\<close>, and four calls.\<close>

definition db_bookmarked :: store where
  "db_bookmarked = (\<lambda>_. [])(''bookmarks'' :=
     [(''b1'', [(''userId'', VStr ''u1''), (''postId'', VStr ''p1''), (''createdAt'', VTime 3)])])"

definition bookmark_calls :: "bookmark_call list" where
  "bookmark_calls = [AddCall no_faults 4 ''b2'' ''u1'' ''p1'', RemoveCall no_faults ''u1'' ''p1'',
                     AddCall no_faults 5 ''b3'' ''u1'' ''p1'', AddCall no_faults 6 ''b4'' ''u1'' ''p1'']"

section \<open>Error texts and substring tests\<close>

text \<open>
  \<open>includes_str\<close> is JavaScript's \<open>String.prototype.includes\<close>. The catch blocks test
  the text of the error they caught. The fixed parts of the application's own messages
  are Korean: no byte of them is ASCII, so in \<open>msg_text\<close> each run of them is the one
  byte \<open>ko\<close>, and the ASCII punctuation and the interpolated values are kept. An
  interpolated id that is not a string is rendered empty.
\<close>

fun includes_str :: "string \<Rightarrow> string \<Rightarrow> bool" where
  "includes_str [] needle = (needle = [])"
| "includes_str (c # cs) needle = (take (length needle) (c # cs) = needle \<or> includes_str cs needle)"

definition ko :: string where
  "ko = [CHR 0x80]"

fun id_text :: "val option \<Rightarrow> string" where
  "id_text (Some (VStr s)) = s"
| "id_text _ = []"

fun msg_text :: "msg \<Rightarrow> string" where
  "msg_text (Raw s) = s"
| "msg_text (CategoryFetchFailed c) = c @ '' '' @ ko @ ''. '' @ ko @ ''.''"
| "msg_text (IndexRequired c url) =
     c @ '' '' @ ko @ '' Firebase '' @ ko @ ''. ''
       @ (case url of Some u \<Rightarrow> ko @ '': '' @ u | None \<Rightarrow> ''Firebase '' @ ko @ ''.'')"
| "msg_text (SettingsInitFailed m) = ko @ '': '' @ msg_text m"
| "msg_text (CategoryIdInUse i) = ''ID '' @ [CHR 0x27] @ i @ [CHR 0x27] @ ko @ ''. '' @ ko @ ''.''"
| "msg_text (CategoryNameInUse n) = ko @ '' '' @ [CHR 0x27] @ n @ [CHR 0x27] @ ko @ ''. '' @ ko @ ''.''"
| "msg_text (CategoryNotFound i) = ''ID'' @ ko @ '' '' @ [CHR 0x27] @ i @ [CHR 0x27] @ ko @ ''.''"
| "msg_text (CategoryIdMissing i) = ko @ '' ID '' @ [CHR 0x27] @ id_text i @ [CHR 0x27] @ ko @ ''. '' @ ko @ ''.''"
| "msg_text (CategoryIdUnknown i) = ko @ '' ID '' @ [CHR 0x27] @ id_text i @ [CHR 0x27] @ ko @ ''. '' @ ko @ ''.''"
| "msg_text (CategoryAddFailed m) = ko @ '': '' @ msg_text m"
| "msg_text (CategoryUpdateFailed m) = ko @ '': '' @ msg_text m"
| "msg_text (CategoryDeleteFailed m) = ko @ '': '' @ msg_text m"
| "msg_text (CategoryReorderFailed m) = ko @ '': '' @ msg_text m"
| "msg_text (CollectionFetchFailed c m) = c @ '' '' @ ko @ '': '' @ msg_text m"
| "msg_text (CollectionClearFailed c m) = c @ '' '' @ ko @ '': '' @ msg_text m"
| "msg_text (BackupFailed m) = ko @ '': '' @ msg_text m"
| "msg_text (RestoreFailed m) = ko @ '': '' @ msg_text m"
| "msg_text InvalidJson = ko @ '' JSON '' @ ko @ ''. '' @ ko @ ''.''"
| "msg_text InvalidCategoryId = ko @ '' ID'' @ ko @ ''. '' @ ko @ ''.''"
| "msg_text NoTargetCategory = ko @ ''. '' @ ko @ ''.''"
| "msg_text _ = ko @ ''.''"

section \<open>Read path: retry with exponential backoff\<close>






definition is_space :: "char \<Rightarrow> bool" where
  "is_space c = (of_char c \<in> {9, 10, 11, 12, 13, 32 :: nat})"





section \<open>Admin session\<close>

text \<open>
  The admin session is one item of the browser's local storage. \<open>getAdminSession\<close>
  parses it; the model keeps what the parse gives: no item, the empty string, a text that
  \<open>JSON.parse\<close> or the field reads reject, or an object whose two dates are already
  \<open>new Date(...)\<close> (\<open>None\<close> is an invalid date). \<open>now\<close> is \<open>new Date()\<close>.
\<close>

record admin =
  admin_id :: string
  isAdmin :: bool
  loggedInAt :: "int option"
  expiresAt :: "int option"

datatype local_item = NoItem | EmptyItem | Malformed | Stored admin

text \<open>A comparison with an invalid date is false, so such a session does not expire.\<close>

definition getAdminSession :: "int \<Rightarrow> local_item \<Rightarrow> admin option \<times> local_item" where
  "getAdminSession now item =
     (case item of
        NoItem \<Rightarrow> (None, NoItem)
      | EmptyItem \<Rightarrow> (None, EmptyItem)
      | Malformed \<Rightarrow> (None, NoItem)
      | Stored a \<Rightarrow>
         (case expiresAt a of
            Some t \<Rightarrow> if t < now then (None, NoItem) else (Some a, item)
          | None \<Rightarrow> (Some a, item)))"

definition isAdminAuthenticated :: "int \<Rightarrow> local_item \<Rightarrow> bool \<times> local_item" where
  "isAdminAuthenticated now item =
     (case getAdminSession now item of (session, item') \<Rightarrow> (session \<noteq> None, item'))"

definition verifyAdminAuth :: "int \<Rightarrow> local_item \<Rightarrow> (error + unit) \<times> local_item" where
  "verifyAdminAuth now item =
     (case isAdminAuthenticated now item of
        (ok, item') \<Rightarrow> (if \<not> ok then Inl (new_Error AdminAuthRequired) else Inr (), item'))"

section \<open>Category administration\<close>

text \<open>
  The categories are one array field of the settings document. The five functions of the
  admin service repeat one loop: up to \<open>MAX_RETRY_COUNT = 5\<close> attempts of a \<open>try\<close> body,
  and a \<open>catch\<close> that waits and tries again, whatever the error, until the attempts are
  used up. \<open>admin_retry\<close> is that loop, with the body and the text that wraps the last
  error as parameters; \<open>env k\<close> are the faults of the SDK calls of attempt \<open>k\<close>. The
  result is the outcome, the final value of \<open>attempts\<close> and the store.
\<close>

definition ADMIN_MAX_RETRY_COUNT :: nat where
  "ADMIN_MAX_RETRY_COUNT = 5"

definition getErrorMessage :: "error \<Rightarrow> msg" where
  "getErrorMessage e = message e"

function admin_retry :: "(nat \<Rightarrow> store \<Rightarrow> (error + 'a) \<times> store) \<Rightarrow> (msg \<Rightarrow> msg) \<Rightarrow> nat \<Rightarrow> store \<Rightarrow> (error + 'a) \<times> nat \<times> store" where
  "admin_retry body wrap attempts db =
     (if attempts < ADMIN_MAX_RETRY_COUNT then
        (let attempts = attempts + 1 in
         case body attempts db of
           (Inr r, db') \<Rightarrow> (Inr r, attempts, db')
         | (Inl e, db') \<Rightarrow>
            (let errorMsg = getErrorMessage e in
             if includes_str (msg_text errorMsg) ''resource-exhausted''
                \<and> attempts < ADMIN_MAX_RETRY_COUNT
             then admin_retry body wrap attempts db'
             else if attempts \<ge> ADMIN_MAX_RETRY_COUNT
             then (Inl (new_Error (wrap errorMsg)), attempts, db')
             else admin_retry body wrap attempts db'))
      else (Inl (new_Error (wrap RetriesExceeded)), attempts, db))"
  by pat_completeness auto
termination
  by (relation "measure (\<lambda>(body, wrap, attempts, db). ADMIN_MAX_RETRY_COUNT - attempts)") auto

declare admin_retry.simps [simp del]

text \<open>
  Reading the array: \<open>settingsData.categories || []\<close>, on which the code then calls an
  array method; a value that is true and not an array has none. The elements are objects
  (\<open>CategoryItem\<close>); \<open>field\<close> reads a property, \<open>None\<close> when it is undefined.
\<close>

fun falsy :: "val \<Rightarrow> bool" where
  "falsy VNull = True"
| "falsy (VBool b) = (\<not> b)"
| "falsy (VNum n) = (n = 0)"
| "falsy (VStr s) = (s = [])"
| "falsy _ = False"

fun falsy_opt :: "val option \<Rightarrow> bool" where
  "falsy_opt None = True"
| "falsy_opt (Some v) = falsy v"

definition type_error :: error where
  "type_error = new_Error (Raw ''categories is not an array'')"

definition categories_of :: "obj \<Rightarrow> error + val list" where
  "categories_of settingsData =
     (case map_of settingsData ''categories'' of
        None \<Rightarrow> Inr []
      | Some (VArr xs) \<Rightarrow> Inr xs
      | Some v \<Rightarrow> if falsy v then Inr [] else Inl type_error)"

fun field :: "val \<Rightarrow> string \<Rightarrow> val option" where
  "field (VObj d) k = map_of d k"
| "field _ k = None"

fun obj_of :: "val \<Rightarrow> obj" where
  "obj_of (VObj d) = d"
| "obj_of _ = []"

text \<open>The writes of a transaction that update the listed documents with one payload.\<close>

fun update_all :: "store \<Rightarrow> string \<Rightarrow> string list \<Rightarrow> (string \<times> field_write) list \<Rightarrow> error + store" where
  "update_all db c [] ws = Inr db"
| "update_all db c (i # is) ws =
     (case updateDoc db c i ws of Inl e \<Rightarrow> Inl e | Inr db' \<Rightarrow> update_all db' c is ws)"

text \<open>
  The \<open>try\<close> body of \<open>deleteCategory(categoryId)\<close>. The settings document is read outside
  the transaction; the transaction queries the posts of the category, moves them to the
  first remaining category and removes the category with \<open>arrayRemove\<close>. Its writes are
  applied together when it commits.
\<close>

definition postsInCategory :: "store \<Rightarrow> string \<Rightarrow> (string \<times> obj) list" where
  "postsInCategory db categoryId =
     filter (\<lambda>(i, d). map_of d ''category'' = Some (VStr categoryId)) (db POSTS_COLLECTION)"

definition remaining :: "val list \<Rightarrow> string \<Rightarrow> val list" where
  "remaining categories categoryId =
     filter (\<lambda>cat. field cat ''id'' \<noteq> Some (VStr categoryId)) categories"

definition deleteCategory_try :: "faults \<Rightarrow> int \<Rightarrow> string \<Rightarrow> store \<Rightarrow> (error + bool) \<times> store" where
  "deleteCategory_try env now categoryId db =
     (case env GetDoc of
        Some e \<Rightarrow> (Inl e, db)
      | None \<Rightarrow>
     (case getDoc db SETTINGS_COLLECTION GLOBAL_SETTINGS_ID of
        None \<Rightarrow> (Inl (new_Error SettingsNotFound), db)
      | Some settingsData \<Rightarrow>
     (case categories_of settingsData of
        Inl e \<Rightarrow> (Inl e, db)
      | Inr categories \<Rightarrow>
     (case find (\<lambda>cat. field cat ''id'' = Some (VStr categoryId)) categories of
        None \<Rightarrow> (Inl (new_Error (CategoryNotFound categoryId)), db)
      | Some categoryToDelete \<Rightarrow>
     (case env GetDocs of
        Some e \<Rightarrow> (Inl e, db)
      | None \<Rightarrow>
     (let postsSnapshot = postsInCategory db categoryId;
          remainingCategories = remaining categories categoryId;
          targetCategoryId = (case remainingCategories of
                                [] \<Rightarrow> Some (VStr [])
                              | cat # _ \<Rightarrow> field cat ''id'')
      in case (if postsSnapshot \<noteq> []
               then (case targetCategoryId of
                       None \<Rightarrow> Inl (new_Error NoTargetCategory)
                     | Some t \<Rightarrow>
                        if falsy t then Inl (new_Error NoTargetCategory)
                        else update_all db POSTS_COLLECTION (map fst postsSnapshot)
                               [(''category'', Put t), (''updatedAt'', Put (VTime now))])
               else Inr db) of
           Inl e \<Rightarrow> (Inl e, db)
         | Inr db1 \<Rightarrow>
            (case updateDoc db1 SETTINGS_COLLECTION GLOBAL_SETTINGS_ID
                    [(''categories'', ArrayRemove categoryToDelete),
                     (''updatedAt'', Put (VTime now))] of
               Inl e \<Rightarrow> (Inl e, db)
             | Inr db2 \<Rightarrow>
                (case env RunTransaction of
                   Some e \<Rightarrow> (Inl e, db)
                 | None \<Rightarrow> (Inr True, db2)))))))))"

text \<open>
  The admin functions return the outcome, the number of attempts, the store and the
  local-storage item. \<open>verifyAdminAuth\<close> comes before the loop.
\<close>

definition admin_gate :: "int \<Rightarrow> local_item \<Rightarrow> store \<Rightarrow> ((error + 'a) \<times> nat \<times> store) \<Rightarrow> ((error + 'a) \<times> nat \<times> store) \<times> local_item" where
  "admin_gate now item db run =
     (case verifyAdminAuth now item of
        (Inl e, item') \<Rightarrow> ((Inl e, 0, db), item')
      | (Inr _, item') \<Rightarrow> (run, item'))"

definition deleteCategory :: "(nat \<Rightarrow> faults) \<Rightarrow> int \<Rightarrow> local_item \<Rightarrow> store \<Rightarrow> string \<Rightarrow> ((error + bool) \<times> nat \<times> store) \<times> local_item" where
  "deleteCategory env now item db categoryId =
     admin_gate now item db
       (admin_retry (\<lambda>k. deleteCategory_try (env k) now categoryId) CategoryDeleteFailed 0 db)"

text \<open>
  \<open>reorderCategories(sortedCategories)\<close>: the ids of the stored array and of the proposed
  list are compared as sets.
\<close>

definition reorderCategories_try :: "faults \<Rightarrow> int \<Rightarrow> val list \<Rightarrow> store \<Rightarrow> (error + bool) \<times> store" where
  "reorderCategories_try env now sortedCategories db =
     (case env GetDoc of
        Some e \<Rightarrow> (Inl e, db)
      | None \<Rightarrow>
     (case getDoc db SETTINGS_COLLECTION GLOBAL_SETTINGS_ID of
        None \<Rightarrow> (Inl (new_Error SettingsNotFound), db)
      | Some settingsData \<Rightarrow>
     (case categories_of settingsData of
        Inl e \<Rightarrow> (Inl e, db)
      | Inr existingCategories \<Rightarrow>
     (let existingIds = map (\<lambda>cat. field cat ''id'') existingCategories;
          newIds = map (\<lambda>cat. field cat ''id'') sortedCategories
      in case find (\<lambda>i. i \<notin> set newIds) existingIds of
           Some i \<Rightarrow> (Inl (new_Error (CategoryIdMissing i)), db)
         | None \<Rightarrow>
        (case find (\<lambda>i. i \<notin> set existingIds) newIds of
           Some i \<Rightarrow> (Inl (new_Error (CategoryIdUnknown i)), db)
         | None \<Rightarrow>
        (case env UpdateDoc of
           Some e \<Rightarrow> (Inl e, db)
         | None \<Rightarrow>
        (case updateDoc db SETTINGS_COLLECTION GLOBAL_SETTINGS_ID
                [(''categories'', Put (VArr sortedCategories)), (''updatedAt'', Put (VTime now))] of
           Inl e \<Rightarrow> (Inl e, db)
         | Inr db' \<Rightarrow> (Inr True, db'))))))))"

definition reorderCategories :: "(nat \<Rightarrow> faults) \<Rightarrow> int \<Rightarrow> local_item \<Rightarrow> store \<Rightarrow> val list \<Rightarrow> ((error + bool) \<times> nat \<times> store) \<times> local_item" where
  "reorderCategories env now item db sortedCategories =
     admin_gate now item db
       (admin_retry (\<lambda>k. reorderCategories_try (env k) now sortedCategories) CategoryReorderFailed 0 db)"

text \<open>
  \<open>addCategory(category)\<close>. The id is the slug of the name:
  \<open>name.toLowerCase().trim().replace(/[^a-z0-9]/g, '-').replace(/-+/g, '-').replace(/^-|-$/g, '')\<close>,
  here on the bytes of the name.
\<close>

definition toLowerCase :: "string \<Rightarrow> string" where
  "toLowerCase s = map (\<lambda>c. let n = (of_char c :: nat) in
                              if 65 \<le> n \<and> n \<le> 90 then char_of (n + 32) else c) s"

definition trim :: "string \<Rightarrow> string" where
  "trim s = rev (dropWhile is_space (rev (dropWhile is_space s)))"

definition is_alnum_lower :: "char \<Rightarrow> bool" where
  "is_alnum_lower c = (let n = (of_char c :: nat) in (97 \<le> n \<and> n \<le> 122) \<or> (48 \<le> n \<and> n \<le> 57))"

fun collapse_hyphens :: "string \<Rightarrow> string" where
  "collapse_hyphens (a # b # cs) =
     (if a = CHR ''-'' \<and> b = CHR ''-'' then collapse_hyphens (b # cs)
      else a # collapse_hyphens (b # cs))"
| "collapse_hyphens cs = cs"

definition strip_hyphens :: "string \<Rightarrow> string" where
  "strip_hyphens s =
     (let s1 = (case s of c # cs \<Rightarrow> if c = CHR ''-'' then cs else s | [] \<Rightarrow> s)
      in if s1 \<noteq> [] \<and> last s1 = CHR ''-'' then butlast s1 else s1)"

definition slug :: "string \<Rightarrow> string" where
  "slug name =
     strip_hyphens (collapse_hyphens
       (map (\<lambda>c. if is_alnum_lower c then c else CHR ''-'') (trim (toLowerCase name))))"

definition newCategory :: "string \<Rightarrow> string \<Rightarrow> string option \<Rightarrow> val" where
  "newCategory newId name icon =
     VObj ([(''id'', VStr newId), (''name'', VStr name)]
           @ (case icon of Some i \<Rightarrow> [(''icon'', VStr i)] | None \<Rightarrow> []))"

definition addCategory_try :: "faults \<Rightarrow> int \<Rightarrow> string \<Rightarrow> string option \<Rightarrow> store \<Rightarrow> (error + string) \<times> store" where
  "addCategory_try env now name icon db =
     (let newId = slug name in
      if newId = [] then (Inl (new_Error InvalidCategoryId), db)
      else
     (case env GetDoc of
        Some e \<Rightarrow> (Inl e, db)
      | None \<Rightarrow>
     (case getDoc db SETTINGS_COLLECTION GLOBAL_SETTINGS_ID of
        None \<Rightarrow>
         (case env SetDoc of
            Some initError \<Rightarrow> (Inl (new_Error (SettingsInitFailed (getErrorMessage initError))), db)
          | None \<Rightarrow>
             (let db1 = setDoc db SETTINGS_COLLECTION GLOBAL_SETTINGS_ID
                          [(''categories'', VArr []), (''createdAt'', VTime now),
                           (''updatedAt'', VTime now)]
              in case env UpdateDoc of
                   Some initError \<Rightarrow>
                     (Inl (new_Error (SettingsInitFailed (getErrorMessage initError))), db1)
                 | None \<Rightarrow>
                    (case updateDoc db1 SETTINGS_COLLECTION GLOBAL_SETTINGS_ID
                            [(''categories'', Put (VArr [newCategory newId name icon])),
                             (''updatedAt'', Put (VTime now))] of
                       Inl initError \<Rightarrow>
                         (Inl (new_Error (SettingsInitFailed (getErrorMessage initError))), db1)
                     | Inr db2 \<Rightarrow> (Inr newId, db2))))
      | Some settingsData \<Rightarrow>
     (case categories_of settingsData of
        Inl e \<Rightarrow> (Inl e, db)
      | Inr categories \<Rightarrow>
         if list_ex (\<lambda>cat. field cat ''id'' = Some (VStr newId)) categories
         then (Inl (new_Error (CategoryIdInUse newId)), db)
         else if list_ex (\<lambda>cat. field cat ''name'' = Some (VStr name)) categories
         then (Inl (new_Error (CategoryNameInUse name)), db)
         else
           (let updatedCategories = categories @ [newCategory newId name icon] in
            case env UpdateDoc of
              Some e \<Rightarrow> (Inl e, db)
            | None \<Rightarrow>
               (case updateDoc db SETTINGS_COLLECTION GLOBAL_SETTINGS_ID
                       [(''categories'', Put (VArr updatedCategories)),
                        (''updatedAt'', Put (VTime now))] of
                  Inl e \<Rightarrow> (Inl e, db)
                | Inr db' \<Rightarrow> (Inr newId, db')))))))"

definition addCategory :: "(nat \<Rightarrow> faults) \<Rightarrow> int \<Rightarrow> local_item \<Rightarrow> store \<Rightarrow> string \<Rightarrow> string option \<Rightarrow> ((error + string) \<times> nat \<times> store) \<times> local_item" where
  "addCategory env now item db name icon =
     admin_gate now item db
       (admin_retry (\<lambda>k. addCategory_try (env k) now name icon) CategoryAddFailed 0 db)"

text \<open>
  \<open>updateCategory(categoryId, updatedName, icon?)\<close>. An empty \<open>icon\<close> makes the field
  \<open>undefined\<close>, which \<open>updateDoc\<close> refuses as invalid data.
\<close>

fun findIndex :: "('a \<Rightarrow> bool) \<Rightarrow> 'a list \<Rightarrow> nat option" where
  "findIndex P [] = None"
| "findIndex P (x # xs) = (if P x then Some 0 else map_option Suc (findIndex P xs))"

definition invalid_data :: error where
  "invalid_data = Error (Some ''invalid-argument'') (Raw ''Unsupported field value: undefined'')"

definition updateCategory_try :: "faults \<Rightarrow> int \<Rightarrow> string \<Rightarrow> string \<Rightarrow> string option \<Rightarrow> store \<Rightarrow> (error + bool) \<times> store" where
  "updateCategory_try env now categoryId updatedName icon db =
     (case env GetDoc of
        Some e \<Rightarrow> (Inl e, db)
      | None \<Rightarrow>
     (case getDoc db SETTINGS_COLLECTION GLOBAL_SETTINGS_ID of
        None \<Rightarrow> (Inl (new_Error SettingsNotFound), db)
      | Some settingsData \<Rightarrow>
     (case categories_of settingsData of
        Inl e \<Rightarrow> (Inl e, db)
      | Inr categories \<Rightarrow>
     (case findIndex (\<lambda>cat. field cat ''id'' = Some (VStr categoryId)) categories of
        None \<Rightarrow> (Inl (new_Error (CategoryNotFound categoryId)), db)
      | Some categoryIndex \<Rightarrow>
         if list_ex (\<lambda>(index, cat). field cat ''name'' = Some (VStr updatedName)
                                   \<and> index \<noteq> categoryIndex)
              (enumerate 0 categories)
         then (Inl (new_Error (CategoryNameInUse updatedName)), db)
         else
           (let existingCategory = obj_of (categories ! categoryIndex);
                updatedCategory = AList.update ''name'' (VStr updatedName) existingCategory;
                updatedCategory = (case icon of
                                     Some i \<Rightarrow> AList.update ''icon'' (VStr i) updatedCategory
                                   | None \<Rightarrow> updatedCategory);
                updatedCategories = categories[categoryIndex := VObj updatedCategory]
            in if icon = Some [] then (Inl invalid_data, db)
               else
                 (case env UpdateDoc of
                    Some e \<Rightarrow> (Inl e, db)
                  | None \<Rightarrow>
                     (case updateDoc db SETTINGS_COLLECTION GLOBAL_SETTINGS_ID
                             [(''categories'', Put (VArr updatedCategories)),
                              (''updatedAt'', Put (VTime now))] of
                        Inl e \<Rightarrow> (Inl e, db)
                      | Inr db' \<Rightarrow> (Inr True, db'))))))))"

definition updateCategory :: "(nat \<Rightarrow> faults) \<Rightarrow> int \<Rightarrow> local_item \<Rightarrow> store \<Rightarrow> string \<Rightarrow> string \<Rightarrow> string option \<Rightarrow> ((error + bool) \<times> nat \<times> store) \<times> local_item" where
  "updateCategory env now item db categoryId updatedName icon =
     admin_gate now item db
       (admin_retry (\<lambda>k. updateCategory_try (env k) now categoryId updatedName icon)
          CategoryUpdateFailed 0 db)"


text \<open>Two categories, one post in \<open>tech\<close>, and an admin session that expires at 7200000.\<close>

definition settings1 :: obj where
  "settings1 = [(''categories'', VArr [newCategory ''general'' ''General'' None,
                                       newCategory ''tech'' ''Tech'' None]),
                (''updatedAt'', VTime 1)]"

definition db_categories :: store where
  "db_categories = (\<lambda>_. [])
     (''settings'' := [(''global-settings'', settings1)],
      ''posts'' := [(''p1'', AList.update ''category'' (VStr ''tech'') post1)])"

definition admin_item :: local_item where
  "admin_item = Stored \<lparr>admin_id = ''admin'', isAdmin = True, loggedInAt = Some 0,
                         expiresAt = Some 7200000\<rparr>"

text \<open>The same two categories, and one post whose category \<open>news\<close> is not among them.\<close>

definition db_orphan :: store where
  "db_orphan = (\<lambda>_. [])
     (''settings'' := [(''global-settings'', settings1)],
      ''posts'' := [(''p1'', AList.update ''category'' (VStr ''news'') post1)])"






section \<open>Dates\<close>

text \<open>
  The JavaScript built-ins the backup code calls. \<open>toISOString\<close> is
  \<open>Date.prototype.toISOString\<close> on milliseconds since the epoch: the civil date of the
  day number, and the time of day, as \<open>YYYY-MM-DDTHH:mm:ss.sssZ\<close>.
\<close>

definition civil_from_days :: "int \<Rightarrow> int \<times> int \<times> int" where
  "civil_from_days d =
     (let z = d + 719468;
          era = z div 146097;
          doe = z - era * 146097;
          yoe = (doe - doe div 1460 + doe div 36524 - doe div 146096) div 365;
          doy = doe - (365 * yoe + yoe div 4 - yoe div 100);
          mp = (5 * doy + 2) div 153;
          dd = doy - (153 * mp + 2) div 5 + 1;
          m = (if mp < 10 then mp + 3 else mp - 9)
      in (yoe + era * 400 + (if m \<le> 2 then 1 else 0), m, dd))"

definition days_from_civil :: "int \<Rightarrow> int \<Rightarrow> int \<Rightarrow> int" where
  "days_from_civil y m d =
     (let y' = y - (if m \<le> 2 then 1 else 0);
          era = y' div 400;
          yoe = y' - era * 400;
          doy = (153 * (if m > 2 then m - 3 else m + 9) + 2) div 5 + d - 1;
          doe = yoe * 365 + yoe div 4 - yoe div 100 + doy
      in era * 146097 + doe - 719468)"

definition digit :: "int \<Rightarrow> char" where
  "digit n = char_of (48 + nat n)"

fun pad :: "nat \<Rightarrow> int \<Rightarrow> string" where
  "pad 0 n = []"
| "pad (Suc k) n = pad k (n div 10) @ [digit (n mod 10)]"

definition toISOString :: "int \<Rightarrow> string" where
  "toISOString t =
     (let day = t div 86400000;
          tod = t mod 86400000;
          (y, m, d) = civil_from_days day;
          year = (if 0 \<le> y \<and> y \<le> 9999 then pad 4 y
                  else (if y < 0 then ''-'' else ''+'') @ pad 6 (abs y))
      in year @ ''-'' @ pad 2 m @ ''-'' @ pad 2 d @ ''T'' @ pad 2 (tod div 3600000) @ '':''
         @ pad 2 (tod div 60000 mod 60) @ '':'' @ pad 2 (tod div 1000 mod 60) @ ''.''
         @ pad 3 (tod mod 1000) @ ''Z'')"

text \<open>
  The pattern of the restore code,
  \<open>/^\d{4}-\d{2}-\d{2}T\d{2}:\d{2}:\d{2}(?:\.\d{1,3})?Z$/\<close>.
\<close>

definition is_digit :: "char \<Rightarrow> bool" where
  "is_digit c = (let n = (of_char c :: nat) in 48 \<le> n \<and> n \<le> 57)"

definition isoDatePattern :: "string \<Rightarrow> bool" where
  "isoDatePattern s =
     (length s \<ge> 20 \<and> list_all is_digit (take 4 s) \<and> s ! 4 = CHR ''-''
      \<and> list_all is_digit (take 2 (drop 5 s)) \<and> s ! 7 = CHR ''-''
      \<and> list_all is_digit (take 2 (drop 8 s)) \<and> s ! 10 = CHR ''T''
      \<and> list_all is_digit (take 2 (drop 11 s)) \<and> s ! 13 = CHR '':''
      \<and> list_all is_digit (take 2 (drop 14 s)) \<and> s ! 16 = CHR '':''
      \<and> list_all is_digit (take 2 (drop 17 s))
      \<and> (drop 19 s = ''Z''
          \<or> (s ! 19 = CHR ''.'' \<and> length s \<le> 24 \<and> length s \<ge> 22 \<and> last s = CHR ''Z''
              \<and> list_all is_digit (butlast (drop 20 s)))))"

text \<open>
  \<open>new Date(s).getTime()\<close>. For a UTC date-time of that pattern with a valid calendar
  date and time it is the instant the fields denote. What an engine answers for any other
  string is the parameter \<open>legacy\<close> (\<open>None\<close> is an invalid date).
\<close>

definition number :: "string \<Rightarrow> int" where
  "number s = foldl (\<lambda>n c. 10 * n + (int (of_char c) - 48)) 0 s"

definition parse_iso :: "string \<Rightarrow> int option" where
  "parse_iso s =
     (if \<not> isoDatePattern s then None
      else
        (let y = number (take 4 s); m = number (take 2 (drop 5 s)); d = number (take 2 (drop 8 s));
             hh = number (take 2 (drop 11 s)); mm = number (take 2 (drop 14 s));
             ss = number (take 2 (drop 17 s));
             frac = (if drop 19 s = ''Z'' then [] else butlast (drop 20 s));
             ms = number (take 3 (frac @ ''000''))
         in if 1 \<le> m \<and> m \<le> 12 \<and> 1 \<le> d \<and> d \<le> 31 \<and> hh \<le> 23 \<and> mm \<le> 59 \<and> ss \<le> 59
               \<and> civil_from_days (days_from_civil y m d) = (y, m, d)
            then Some (days_from_civil y m d * 86400000 + hh * 3600000 + mm * 60000
                       + ss * 1000 + ms)
            else None))"

definition parseDate :: "(string \<Rightarrow> int option) \<Rightarrow> string \<Rightarrow> int option" where
  "parseDate legacy s = (case parse_iso s of Some t \<Rightarrow> Some t | None \<Rightarrow> legacy s)"

text \<open>The instants a store timestamp can hold: years 1 to 9999.\<close>

definition in_timestamp_range :: "int \<Rightarrow> bool" where
  "in_timestamp_range t = (- 62135596800000 \<le> t \<and> t < 253402300800000)"

section \<open>Backup and restore\<close>

text \<open>
  \<open>convertTimestampsToISOStrings\<close>: arrays and objects are walked, a timestamp becomes
  its ISO string, everything else is returned as it is.
\<close>

fun convertTimestampsToISOStrings :: "val \<Rightarrow> val" where
  "convertTimestampsToISOStrings (VArr xs) = VArr (map convertTimestampsToISOStrings xs)"
| "convertTimestampsToISOStrings (VTime t) = VStr (toISOString t)"
| "convertTimestampsToISOStrings (VObj d) =
     VObj (map (\<lambda>kv. (fst kv, convertTimestampsToISOStrings (snd kv))) d)"
| "convertTimestampsToISOStrings v = v"

text \<open>
  \<open>toISOString\<close> throws on an invalid date, so a document that holds an invalid timestamp
  makes the read of its collection fail.
\<close>

fun has_invalid_time :: "val \<Rightarrow> bool" where
  "has_invalid_time VInvalidTime = True"
| "has_invalid_time (VArr xs) = list_ex has_invalid_time xs"
| "has_invalid_time (VObj d) = list_ex (\<lambda>kv. has_invalid_time (snd kv)) d"
| "has_invalid_time v = False"

definition range_error :: error where
  "range_error = new_Error (Raw ''Invalid time value'')"

text \<open>
  \<open>fetchCollectionData(collectionName)\<close>: every document as \<open>{id: doc.id, ...data}\<close>, so
  a field named \<open>id\<close> of the data replaces the document's id. \<open>env\<close> gives the fault of
  \<open>getDocs\<close> on a collection.
\<close>

definition spread_id :: "string \<Rightarrow> obj \<Rightarrow> obj" where
  "spread_id i d =
     (case map_of d ''id'' of
        None \<Rightarrow> (''id'', VStr i) # d
      | Some v \<Rightarrow> (''id'', v) # AList.delete ''id'' d)"

definition fetchCollectionData :: "(string \<Rightarrow> error option) \<Rightarrow> store \<Rightarrow> string \<Rightarrow> error + val list" where
  "fetchCollectionData env db collectionName =
     (case env collectionName of
        Some e \<Rightarrow> Inl (new_Error (CollectionFetchFailed collectionName (message e)))
      | None \<Rightarrow>
         if list_ex (\<lambda>(i, d). has_invalid_time (VObj d)) (db collectionName)
         then Inl (new_Error (CollectionFetchFailed collectionName (message range_error)))
         else Inr (map (\<lambda>(i, d). VObj (spread_id i (obj_of (convertTimestampsToISOStrings (VObj d)))))
                     (db collectionName)))"

text \<open>
  \<open>backupData(options)\<close>. The result is the object that \<open>JSON.stringify\<close> serialises;
  \<open>backup_loop\<close> is the \<open>for\<close> over the requested collections.
\<close>

definition default_collections :: "string list" where
  "default_collections = [POSTS_COLLECTION, COMMENTS_COLLECTION, SETTINGS_COLLECTION, BOOKMARKS_COLLECTION]"

fun backup_loop :: "(string \<Rightarrow> error option) \<Rightarrow> store \<Rightarrow> bool \<Rightarrow> string list \<Rightarrow> obj \<Rightarrow> error + obj" where
  "backup_loop env db includeUsers [] backupData = Inr backupData"
| "backup_loop env db includeUsers (collectionName # rest) backupData =
     (if collectionName = USERS_COLLECTION \<and> \<not> includeUsers
      then backup_loop env db includeUsers rest backupData
      else case fetchCollectionData env db collectionName of
             Inl e \<Rightarrow> Inl e
           | Inr docs \<Rightarrow>
              backup_loop env db includeUsers rest
                (AList.update collectionName (VArr docs) backupData))"

definition backupData_try :: "(string \<Rightarrow> error option) \<Rightarrow> int \<Rightarrow> store \<Rightarrow> string list \<Rightarrow> bool \<Rightarrow> error + val" where
  "backupData_try env now db collections includeUsers =
     (case backup_loop env db includeUsers collections [] of
        Inl e \<Rightarrow> Inl e
      | Inr backupData \<Rightarrow>
         (case (if includeUsers \<and> USERS_COLLECTION \<notin> set collections
                then map_sum id (\<lambda>docs. AList.update USERS_COLLECTION (VArr docs) backupData)
                       (fetchCollectionData env db USERS_COLLECTION)
                else Inr backupData) of
            Inl e \<Rightarrow> Inl e
          | Inr backupData \<Rightarrow>
             Inr (VObj
               [(''metadata'', VObj
                  [(''createdAt'', VStr (toISOString now)),
                   (''version'', VStr ''1.0''),
                   (''collections'', VArr (map (\<lambda>kv. VStr (fst kv)) backupData)),
                   (''counts'', VObj (map (\<lambda>kv. (fst kv, VNum (int (length
                                        (case snd kv of VArr xs \<Rightarrow> xs | _ \<Rightarrow> []))))) backupData))]),
                (''data'', VObj backupData)])))"

definition backupData :: "(string \<Rightarrow> error option) \<Rightarrow> int \<Rightarrow> local_item \<Rightarrow> store \<Rightarrow> string list \<Rightarrow> bool \<Rightarrow> (error + val) \<times> local_item" where
  "backupData env now item db collections includeUsers =
     (case verifyAdminAuth now item of
        (Inl e, item') \<Rightarrow> (Inl e, item')
      | (Inr _, item') \<Rightarrow>
         (case backupData_try env now db collections includeUsers of
            Inl e \<Rightarrow> (Inl (new_Error (BackupFailed (message e))), item')
          | Inr json \<Rightarrow> (Inr json, item')))"

text \<open>
  \<open>convertISOStringsToTimestamps\<close>. In an object, a string under \<open>createdAt\<close>,
  \<open>updatedAt\<close> or \<open>editedAt\<close> goes through \<open>Timestamp.fromDate(new Date(...))\<close>: an
  invalid date gives an invalid timestamp, and a date outside the timestamp range throws,
  which keeps the string. Any other string that matches the ISO pattern goes through
  \<open>isoStringToTimestamp\<close>, which answers \<open>null\<close> where the conversion fails.
\<close>

definition dateFieldToTimestamp :: "(string \<Rightarrow> int option) \<Rightarrow> string \<Rightarrow> val" where
  "dateFieldToTimestamp legacy s =
     (case parseDate legacy s of
        None \<Rightarrow> VInvalidTime
      | Some t \<Rightarrow> if in_timestamp_range t then VTime t else VStr s)"

definition isoStringToTimestamp :: "(string \<Rightarrow> int option) \<Rightarrow> string \<Rightarrow> val" where
  "isoStringToTimestamp legacy isoString =
     (if isoString = [] then VNull
      else case parseDate legacy isoString of
             None \<Rightarrow> VNull
           | Some t \<Rightarrow> if in_timestamp_range t then VTime t else VNull)"

definition is_date_key :: "string \<Rightarrow> bool" where
  "is_date_key key = (key = ''createdAt'' \<or> key = ''updatedAt'' \<or> key = ''editedAt'')"

fun convertISOStringsToTimestamps :: "(string \<Rightarrow> int option) \<Rightarrow> val \<Rightarrow> val" where
  "convertISOStringsToTimestamps legacy (VArr xs) = VArr (map (convertISOStringsToTimestamps legacy) xs)"
| "convertISOStringsToTimestamps legacy (VObj d) =
     VObj (map (\<lambda>kv. (fst kv,
                       case snd kv of
                         VStr s \<Rightarrow> if is_date_key (fst kv) then dateFieldToTimestamp legacy s
                                   else convertISOStringsToTimestamps legacy (snd kv)
                       | _ \<Rightarrow> convertISOStringsToTimestamps legacy (snd kv))) d)"
| "convertISOStringsToTimestamps legacy (VStr s) =
     (if s \<noteq> [] \<and> isoDatePattern s then isoStringToTimestamp legacy s else VStr s)"
| "convertISOStringsToTimestamps legacy v = v"

text \<open>
  \<open>processCollectionSpecificData\<close>: a date field that is still a non-empty string is
  converted again, outside any \<open>try\<close>, so a date outside the timestamp range throws here.
\<close>

definition out_of_range :: error where
  "out_of_range = Error (Some ''invalid-argument'') (Raw ''Timestamp seconds out of range'')"

definition convertField :: "(string \<Rightarrow> int option) \<Rightarrow> string \<Rightarrow> obj \<Rightarrow> error + obj" where
  "convertField legacy key processedData =
     (case map_of processedData key of
        Some (VStr s) \<Rightarrow>
          if s = [] then Inr processedData
          else (case parseDate legacy s of
                  None \<Rightarrow> Inr (AList.update key VInvalidTime processedData)
                | Some t \<Rightarrow> if in_timestamp_range t
                            then Inr (AList.update key (VTime t) processedData)
                            else Inl out_of_range)
      | _ \<Rightarrow> Inr processedData)"

definition processCollectionSpecificData :: "(string \<Rightarrow> int option) \<Rightarrow> string \<Rightarrow> obj \<Rightarrow> error + obj" where
  "processCollectionSpecificData legacy collectionName data =
     (if collectionName = POSTS_COLLECTION \<or> collectionName = COMMENTS_COLLECTION
      then (case convertField legacy ''createdAt'' data of
              Inl e \<Rightarrow> Inl e
            | Inr processedData \<Rightarrow> convertField legacy ''updatedAt'' processedData)
      else if collectionName = SETTINGS_COLLECTION
      then convertField legacy ''updatedAt'' data
      else Inr data)"

text \<open>
  \<open>clearCollection\<close> deletes the collection in batches of 500 documents.
\<close>

function clearCollection_loop :: "coll \<Rightarrow> coll" where
  "clearCollection_loop c =
     (let snapshot = take 500 c in
      if snapshot = [] then c
      else (let c' = filter (\<lambda>doc. fst doc \<notin> fst ` set snapshot) c in
            if length snapshot < 500 then c' else clearCollection_loop c'))"
  by pat_completeness auto
termination
proof (relation "measure length")
  show "wf (measure length)" by simp
next
  fix c snapshot :: coll and c'
  assume s: "snapshot = take 500 c" and ne: "snapshot \<noteq> []"
    and c': "c' = filter (\<lambda>doc. fst doc \<notin> fst ` set snapshot) c"
  from s ne obtain x xs where c: "c = x # xs" by (cases c) auto
  with s have "x \<in> set snapshot" by simp
  then have "\<not> (fst x \<notin> fst ` set snapshot)" by simp
  moreover have "x \<in> set c" using c by simp
  ultimately have "length (filter (\<lambda>doc. fst doc \<notin> fst ` set snapshot) c) < length c"
    by (rule length_filter_less [rotated])
  with c' show "(c', c) \<in> measure length" by simp
qed

declare clearCollection_loop.simps [simp del]

definition clearCollection :: "(string \<Rightarrow> error option) \<Rightarrow> store \<Rightarrow> string \<Rightarrow> error + store" where
  "clearCollection cenv db collectionName =
     (case cenv collectionName of
        Some e \<Rightarrow> Inl (new_Error (CollectionClearFailed collectionName (message e)))
      | None \<Rightarrow> Inr (db(collectionName := clearCollection_loop (db collectionName))))"

text \<open>
  One item of a collection of the backup: \<open>const { id, ...docData } = item\<close>, then the
  \<open>try\<close> whose \<open>catch\<close> counts a failure. \<open>doc(db, collectionName, id)\<close> throws unless
  the id is a non-empty string that names a document of the collection; \<open>setDoc\<close> refuses
  an invalid timestamp. \<open>env c i\<close> are the faults of the SDK calls on document \<open>i\<close> of
  collection \<open>c\<close>.
\<close>

datatype item_outcome = Restored | Failed | Skipped

definition restore_item :: "(string \<Rightarrow> int option) \<Rightarrow> (string \<Rightarrow> string \<Rightarrow> faults) \<Rightarrow> bool \<Rightarrow> string \<Rightarrow> store \<Rightarrow> val \<Rightarrow> item_outcome \<times> store" where
  "restore_item legacy env overwrite collectionName db item =
     (let docData = AList.delete ''id'' (obj_of item) in
      case field item ''id'' of
        Some (VStr i) \<Rightarrow>
          if i = [] \<or> CHR ''/'' \<in> set i then (Failed, db)
          else if \<not> overwrite \<and> env collectionName i GetDoc \<noteq> None then (Failed, db)
          else if \<not> overwrite \<and> getDoc db collectionName i \<noteq> None then (Skipped, db)
          else
            (case processCollectionSpecificData legacy collectionName
                    (obj_of (convertISOStringsToTimestamps legacy (VObj docData))) of
               Inl e \<Rightarrow> (Failed, db)
             | Inr finalData \<Rightarrow>
                if has_invalid_time (VObj finalData) \<or> env collectionName i SetDoc \<noteq> None
                then (Failed, db)
                else (Restored, setDoc db collectionName i finalData))
      | _ \<Rightarrow> (Failed, db))"

text \<open>
  The \<open>for\<close> over the items: destructuring \<open>null\<close> throws outside the inner \<open>try\<close> and
  ends the whole restore. The result is the counts of restored and failed documents.
\<close>

definition not_destructurable :: error where
  "not_destructurable = new_Error (Raw ''Cannot destructure null'')"

definition not_iterable :: error where
  "not_iterable = new_Error (Raw ''collectionData is not iterable'')"

fun restore_items :: "(string \<Rightarrow> int option) \<Rightarrow> (string \<Rightarrow> string \<Rightarrow> faults) \<Rightarrow> bool \<Rightarrow> string \<Rightarrow> val list \<Rightarrow> nat \<Rightarrow> nat \<Rightarrow> store \<Rightarrow> (error + nat \<times> nat) \<times> store" where
  "restore_items legacy env overwrite collectionName [] restoredCount failedCount db =
     (Inr (restoredCount, failedCount), db)"
| "restore_items legacy env overwrite collectionName (item # rest) restoredCount failedCount db =
     (if item = VNull then (Inl not_destructurable, db)
      else case restore_item legacy env overwrite collectionName db item of
             (Restored, db') \<Rightarrow>
               restore_items legacy env overwrite collectionName rest (restoredCount + 1) failedCount db'
           | (Failed, db') \<Rightarrow>
               restore_items legacy env overwrite collectionName rest restoredCount (failedCount + 1) db'
           | (Skipped, db') \<Rightarrow>
               restore_items legacy env overwrite collectionName rest restoredCount failedCount db')"

record restore_result =
  restoredCounts :: "(string \<times> nat) list"
  failedCounts :: "(string \<times> nat) list"
  clearWarnings :: "string list"

text \<open>
  The \<open>for\<close> over the requested collections. A collection that the backup does not hold
  (or holds as a false value) is skipped; a string is iterated by its characters and any
  other value that is not an array is not iterable.
\<close>

fun restore_loop :: "(string \<Rightarrow> int option) \<Rightarrow> (string \<Rightarrow> string \<Rightarrow> faults) \<Rightarrow> (string \<Rightarrow> error option) \<Rightarrow> bool \<Rightarrow> bool \<Rightarrow> val \<Rightarrow> string list \<Rightarrow> restore_result \<Rightarrow> store \<Rightarrow> (error + restore_result) \<times> store" where
  "restore_loop legacy env cenv overwrite deleteBeforeRestore data [] res db = (Inr res, db)"
| "restore_loop legacy env cenv overwrite deleteBeforeRestore data (collectionName # rest) res db =
     (if falsy_opt (field data collectionName)
      then restore_loop legacy env cenv overwrite deleteBeforeRestore data rest res db
      else
        (let collectionData = (case field data collectionName of Some v \<Rightarrow> v | None \<Rightarrow> VNull);
             cleared = (if deleteBeforeRestore then clearCollection cenv db collectionName else Inr db);
             db1 = (case cleared of Inr d \<Rightarrow> d | Inl e \<Rightarrow> db);
             res1 = (case cleared of
                       Inr d \<Rightarrow> res
                     | Inl e \<Rightarrow> res\<lparr>clearWarnings := clearWarnings res @ [collectionName]\<rparr>)
         in case (case collectionData of
                    VArr xs \<Rightarrow> Inr xs
                  | VStr s \<Rightarrow> Inr (map (\<lambda>c. VStr [c]) s)
                  | _ \<Rightarrow> Inl not_iterable) of
              Inl e \<Rightarrow> (Inl e, db1)
            | Inr items \<Rightarrow>
               (case restore_items legacy env overwrite collectionName items 0 0 db1 of
                  (Inl e, db2) \<Rightarrow> (Inl e, db2)
                | (Inr (restoredCount, failedCount), db2) \<Rightarrow>
                   restore_loop legacy env cenv overwrite deleteBeforeRestore data rest
                     (res1\<lparr>restoredCounts := AList.update collectionName restoredCount (restoredCounts res1),
                           failedCounts := AList.update collectionName failedCount (failedCounts res1)\<rparr>)
                     db2)))"

text \<open>
  \<open>restoreData(jsonData, options)\<close>. \<open>jsonData\<close> is what \<open>JSON.parse\<close> gives, \<open>None\<close>
  when it throws; the log line in the same \<open>try\<close> reads \<open>backupContent.metadata\<close>, which
  throws on \<open>null\<close>. \<open>handleError\<close> throws again whatever the \<open>try\<close> threw.
\<close>

definition restoreData_try :: "(string \<Rightarrow> int option) \<Rightarrow> (string \<Rightarrow> string \<Rightarrow> faults) \<Rightarrow> (string \<Rightarrow> error option) \<Rightarrow> store \<Rightarrow> val option \<Rightarrow> string list \<Rightarrow> bool \<Rightarrow> bool \<Rightarrow> (error + restore_result) \<times> store" where
  "restoreData_try legacy env cenv db jsonData collections overwrite deleteBeforeRestore =
     (case jsonData of
        None \<Rightarrow> (Inl (new_Error InvalidJson), db)
      | Some backupContent \<Rightarrow>
         if backupContent = VNull then (Inl (new_Error InvalidJson), db)
         else
           (case field backupContent ''data'' of
              Some (VObj d) \<Rightarrow>
                restore_loop legacy env cenv overwrite deleteBeforeRestore (VObj d) collections
                  \<lparr>restoredCounts = [], failedCounts = [], clearWarnings = []\<rparr> db
            | Some (VArr xs) \<Rightarrow>
                restore_loop legacy env cenv overwrite deleteBeforeRestore (VArr xs) collections
                  \<lparr>restoredCounts = [], failedCounts = [], clearWarnings = []\<rparr> db
            | _ \<Rightarrow> (Inl (new_Error InvalidBackupFormat), db)))"

definition restoreData :: "(string \<Rightarrow> int option) \<Rightarrow> (string \<Rightarrow> string \<Rightarrow> faults) \<Rightarrow> (string \<Rightarrow> error option) \<Rightarrow> int \<Rightarrow> local_item \<Rightarrow> store \<Rightarrow> val option \<Rightarrow> string list \<Rightarrow> bool \<Rightarrow> bool \<Rightarrow> ((error + restore_result) \<times> store) \<times> local_item" where
  "restoreData legacy env cenv now item db jsonData collections overwrite deleteBeforeRestore =
     (case verifyAdminAuth now item of
        (Inl e, item') \<Rightarrow> ((Inl e, db), item')
      | (Inr _, item') \<Rightarrow>
         (case restoreData_try legacy env cenv db jsonData collections overwrite deleteBeforeRestore of
            (Inl e, db') \<Rightarrow> ((Inl (new_Error (RestoreFailed (message e))), db'), item')
          | (Inr res, db') \<Rightarrow> ((Inr res, db'), item')))"

text \<open>A session that expired at 7200000.\<close>

definition expired_item :: local_item where
  "expired_item = Stored \<lparr>admin_id = ''admin'', isAdmin = True, loggedInAt = Some 0,
                           expiresAt = Some 7200000\<rparr>"







definition set_all :: "string \<Rightarrow> coll \<Rightarrow> store \<Rightarrow> store" where
  "set_all cn c st = fold (\<lambda>(i, d) st. setDoc st cn i d) c st"

section \<open>Properties of the post repository\<close>














section \<open>Properties of the comment repository\<close>

lemma update_fresh: "k \<notin> fst ` set al \<Longrightarrow> AList.update k v al = al @ [(k, v)]"
  by (induction al) auto

lemma createComment_fail:
  "fst (createComment env now newId db postId content author authorId) = Inl e \<Longrightarrow>
   snd (createComment env now newId db postId content author authorId) = db"
  by (auto simp: createComment_def Let_def split: if_splits option.splits sum.splits)

lemma createComment_cases:
  "snd (createComment env now newId db postId content author authorId) = db \<or>
   (\<exists>d. getDoc db POSTS_COLLECTION postId = Some d \<and>
      snd (createComment env now newId db postId content author authorId) =
        db(COMMENTS_COLLECTION := AList.update newId
              [(''postId'', VStr postId), (''content'', VStr content),
               (''author'', VObj author), (''authorId'', VStr authorId),
               (''createdAt'', VTime now), (''updatedAt'', VTime now)] (db COMMENTS_COLLECTION),
           POSTS_COLLECTION := AList.update postId
              (applyWrites d [(''commentCount'', Increment 1), (''updatedAt'', Put (VTime now))])
              (db POSTS_COLLECTION)))"
  by (auto simp: createComment_def Let_def updateDoc_def setDoc_def getDoc_def
      POSTS_COLLECTION_def COMMENTS_COLLECTION_def fun_upd_twist
      split: if_splits option.splits sum.splits)

lemma deleteComment_cases:
  "snd (deleteComment env now db commentId postId userId) = db \<or>
   (\<exists>d. getDoc db POSTS_COLLECTION postId = Some d \<and> getDoc db COMMENTS_COLLECTION commentId \<noteq> None \<and>
      snd (deleteComment env now db commentId postId userId) =
        db(COMMENTS_COLLECTION := AList.delete commentId (db COMMENTS_COLLECTION),
           POSTS_COLLECTION := AList.update postId
              (applyWrites d [(''commentCount'', Increment (- 1)), (''updatedAt'', Put (VTime now))])
              (db POSTS_COLLECTION)))"
  by (auto simp: deleteComment_def Let_def updateDoc_def deleteDoc_def getDoc_def
      POSTS_COLLECTION_def COMMENTS_COLLECTION_def fun_upd_twist
      split: if_splits option.splits sum.splits)

lemma count_incr:
  "map_of d ''commentCount'' = Some (VNum m) \<Longrightarrow>
   map_of (applyWrites d [(''commentCount'', Increment n), (''updatedAt'', Put t)]) ''commentCount''
     = Some (VNum (m + n))"
  by (simp add: applyWrite_def update_conv')


lemma filter_delete_count:
  "distinct (map fst al) \<Longrightarrow> map_of al k = Some c \<Longrightarrow>
   length (filter P (AList.delete k al)) + (if P (k, c) then 1 else 0) = length (filter P al)"
proof (induction al)
  case Nil
  then show ?case by simp
next
  case (Cons a al)
  obtain k' v where a: "a = (k', v)" by (cases a)
  show ?case
  proof (cases "k' = k")
    case True
    with Cons.prems a have "k \<notin> fst ` set al" "v = c" by auto
    then show ?thesis using True a by (simp add: delete_id)
  next
    case False
    with Cons a show ?thesis by auto
  qed
qed

lemma create_keeps_counter:
  assumes fresh: "newId \<notin> fst ` set (db COMMENTS_COLLECTION)"
    and inv: "commentCount db p = Some (VNum (int (length (commentsOf db p))))"
  shows "commentCount (snd (createComment env now newId db postId content author authorId)) p
           = Some (VNum (int (length (commentsOf
                (snd (createComment env now newId db postId content author authorId)) p))))"
proof -
  let ?db' = "snd (createComment env now newId db postId content author authorId)"
  let ?c = "[(''postId'', VStr postId), (''content'', VStr content),
               (''author'', VObj author), (''authorId'', VStr authorId),
               (''createdAt'', VTime now), (''updatedAt'', VTime now)]"
  from createComment_cases [of env now newId db postId content author authorId]
  show ?thesis
  proof
    assume "?db' = db"
    with inv show ?thesis by simp
  next
    assume "\<exists>d. getDoc db POSTS_COLLECTION postId = Some d \<and>
      ?db' = db(COMMENTS_COLLECTION := AList.update newId ?c (db COMMENTS_COLLECTION),
           POSTS_COLLECTION := AList.update postId
              (applyWrites d [(''commentCount'', Increment 1), (''updatedAt'', Put (VTime now))])
              (db POSTS_COLLECTION))"
    then obtain d where d: "getDoc db POSTS_COLLECTION postId = Some d"
      and db': "?db' = db(COMMENTS_COLLECTION := AList.update newId ?c (db COMMENTS_COLLECTION),
           POSTS_COLLECTION := AList.update postId
              (applyWrites d [(''commentCount'', Increment 1), (''updatedAt'', Put (VTime now))])
              (db POSTS_COLLECTION))"
      by blast
    have ne: "COMMENTS_COLLECTION \<noteq> POSTS_COLLECTION"
      by (simp add: COMMENTS_COLLECTION_def POSTS_COLLECTION_def)
    have cs: "?db' COMMENTS_COLLECTION = db COMMENTS_COLLECTION @ [(newId, ?c)]"
      using ne by (simp add: db' update_fresh [OF fresh])
    have ps: "?db' POSTS_COLLECTION = AList.update postId
              (applyWrites d [(''commentCount'', Increment 1), (''updatedAt'', Put (VTime now))])
              (db POSTS_COLLECTION)"
      by (simp add: db')
    show ?thesis
    proof (cases "p = postId")
      case True
      from inv d True have m: "map_of d ''commentCount'' = Some (VNum (int (length (commentsOf db p))))"
        by (simp add: commentCount_def)
      have "commentCount ?db' p = Some (VNum (int (length (commentsOf db p)) + 1))"
        unfolding commentCount_def getDoc_def ps using True count_incr [OF m]
        by (simp add: update_conv')
      moreover have "length (commentsOf ?db' p) = length (commentsOf db p) + 1"
        unfolding commentsOf_def cs using True by simp
      ultimately show ?thesis by simp
    next
      case False
      have "commentCount ?db' p = commentCount db p"
        unfolding commentCount_def getDoc_def ps using False by (simp add: update_conv')
      moreover have "commentsOf ?db' p = commentsOf db p"
        unfolding commentsOf_def cs using False by simp
      ultimately show ?thesis using inv by simp
    qed
  qed
qed

lemma delete_keeps_counter:
  assumes dist: "distinct (map fst (db COMMENTS_COLLECTION))"
    and ok: "call_ok db (DeleteCall env now commentId postId userId)"
    and inv: "commentCount db p = Some (VNum (int (length (commentsOf db p))))"
  shows "commentCount (snd (deleteComment env now db commentId postId userId)) p
           = Some (VNum (int (length (commentsOf
                (snd (deleteComment env now db commentId postId userId)) p))))"
proof -
  let ?db' = "snd (deleteComment env now db commentId postId userId)"
  from deleteComment_cases [of env now db commentId postId userId]
  show ?thesis
  proof
    assume "?db' = db"
    with inv show ?thesis by simp
  next
    assume "\<exists>d. getDoc db POSTS_COLLECTION postId = Some d \<and> getDoc db COMMENTS_COLLECTION commentId \<noteq> None \<and>
      ?db' = db(COMMENTS_COLLECTION := AList.delete commentId (db COMMENTS_COLLECTION),
           POSTS_COLLECTION := AList.update postId
              (applyWrites d [(''commentCount'', Increment (- 1)), (''updatedAt'', Put (VTime now))])
              (db POSTS_COLLECTION))"
    then obtain d c where d: "getDoc db POSTS_COLLECTION postId = Some d"
      and c: "getDoc db COMMENTS_COLLECTION commentId = Some c"
      and db': "?db' = db(COMMENTS_COLLECTION := AList.delete commentId (db COMMENTS_COLLECTION),
           POSTS_COLLECTION := AList.update postId
              (applyWrites d [(''commentCount'', Increment (- 1)), (''updatedAt'', Put (VTime now))])
              (db POSTS_COLLECTION))"
      by blast
    from ok c have cp: "map_of c ''postId'' = Some (VStr postId)" by simp
    have ne: "COMMENTS_COLLECTION \<noteq> POSTS_COLLECTION"
      by (simp add: COMMENTS_COLLECTION_def POSTS_COLLECTION_def)
    have cs: "?db' COMMENTS_COLLECTION = AList.delete commentId (db COMMENTS_COLLECTION)"
      using ne by (simp add: db')
    have ps: "?db' POSTS_COLLECTION = AList.update postId
              (applyWrites d [(''commentCount'', Increment (- 1)), (''updatedAt'', Put (VTime now))])
              (db POSTS_COLLECTION)"
      by (simp add: db')
    from c have c': "map_of (db COMMENTS_COLLECTION) commentId = Some c" by (simp add: getDoc_def)
    note cnt = filter_delete_count [OF dist c',
        of "\<lambda>(i, c). map_of c ''postId'' = Some (VStr p)"]
    show ?thesis
    proof (cases "p = postId")
      case True
      from inv d True have m: "map_of d ''commentCount'' = Some (VNum (int (length (commentsOf db p))))"
        by (simp add: commentCount_def)
      have "commentCount ?db' p = Some (VNum (int (length (commentsOf db p)) + (- 1)))"
        unfolding commentCount_def getDoc_def ps using True count_incr [OF m]
        by (simp add: update_conv')
      moreover have "length (commentsOf ?db' p) + 1 = length (commentsOf db p)"
        unfolding commentsOf_def cs using True cnt cp by simp
      ultimately show ?thesis by simp
    next
      case False
      have "commentCount ?db' p = commentCount db p"
        unfolding commentCount_def getDoc_def ps using False by (simp add: update_conv')
      moreover have "length (commentsOf ?db' p) = length (commentsOf db p)"
        unfolding commentsOf_def cs using False cnt cp by simp
      ultimately show ?thesis using inv by simp
    qed
  qed
qed

lemma step_keeps_distinct:
  "distinct (map fst (db COMMENTS_COLLECTION)) \<Longrightarrow>
   distinct (map fst (comment_step db c COMMENTS_COLLECTION))"
proof (cases c)
  case (CreateCall env now newId postId content author authorId)
  assume "distinct (map fst (db COMMENTS_COLLECTION))"
  then show ?thesis
    using createComment_cases [of env now newId db postId content author authorId] CreateCall
    by (auto simp: distinct_update COMMENTS_COLLECTION_def POSTS_COLLECTION_def)
next
  case (DeleteCall env now commentId postId userId)
  assume "distinct (map fst (db COMMENTS_COLLECTION))"
  then show ?thesis
    using deleteComment_cases [of env now db commentId postId userId] DeleteCall
    by (auto simp: distinct_delete COMMENTS_COLLECTION_def POSTS_COLLECTION_def)
qed

lemma step_keeps_counter:
  assumes "distinct (map fst (db COMMENTS_COLLECTION))"
    and "call_ok db c"
    and "commentCount db p = Some (VNum (int (length (commentsOf db p))))"
  shows "commentCount (comment_step db c) p
           = Some (VNum (int (length (commentsOf (comment_step db c) p))))"
proof (cases c)
  case (CreateCall env now newId postId content author authorId)
  with assms show ?thesis using create_keeps_counter by simp
next
  case (DeleteCall env now commentId postId userId)
  with assms show ?thesis using delete_keeps_counter by simp
qed

lemmas comment_eval = createComment_def deleteComment_def setDoc_def deleteDoc_def updateDoc_def getDoc_def
  commentCount_def commentsOf_def no_faults_def applyWrite_def
  POSTS_COLLECTION_def COMMENTS_COLLECTION_def db_two_posts_def db_one_post_def post1_def comment1_def three_calls_def

text \<open>
  C3, as stated, fails: \<open>deleteComment\<close> decrements the counter of the post named by
  its argument, whatever post the deleted comment references. Here \<open>p2\<close> has no comment
  and counter 0; deleting the comment \<open>c1\<close> of \<open>p1\<close> with \<open>postId = p2\<close> succeeds and
  leaves \<open>p2\<close> with counter -1 and no comment.
\<close>

theorem deleteComment_wrong_post:
  "commentCount db_two_posts ''p2'' = Some (VNum 0) \<and> commentsOf db_two_posts ''p2'' = []
   \<and> fst (deleteComment no_faults 8 db_two_posts ''c1'' ''p2'' ''u1'') = Inr ()
   \<and> commentCount (snd (deleteComment no_faults 8 db_two_posts ''c1'' ''p2'' ''u1'')) ''p2''
        = Some (VNum (- 1))
   \<and> commentsOf (snd (deleteComment no_faults 8 db_two_posts ''c1'' ''p2'' ''u1'')) ''p2'' = []"
  by (simp add: comment_eval)

text \<open>
  C3, amended: from a store where the counter of post \<open>p\<close> equals the number of comments
  that reference \<open>p\<close>, after every sequence of \<open>createComment\<close> and \<open>deleteComment\<close>
  calls (failing or not, against any posts) in which each generated comment id is new and
  each \<open>deleteComment\<close> passes the \<open>postId\<close> stored in the comment it deletes, the
  counter of \<open>p\<close> equals the number of comments that reference \<open>p\<close>.
\<close>

theorem comment_counter_invariant:
  assumes "distinct (map fst (db COMMENTS_COLLECTION))"
    and "commentCount db p = Some (VNum (int (length (commentsOf db p))))"
    and "calls_ok db calls"
  shows "commentCount (comment_run db calls) p
           = Some (VNum (int (length (commentsOf (comment_run db calls) p))))"
  using assms
proof (induction calls arbitrary: db)
  case Nil
  then show ?case by simp
next
  case (Cons c cs)
  from Cons.prems have ok: "call_ok db c" and rest: "calls_ok (comment_step db c) cs" by simp_all
  have d': "distinct (map fst (comment_step db c COMMENTS_COLLECTION))"
    using Cons.prems(1) by (rule step_keeps_distinct)
  have i': "commentCount (comment_step db c) p
              = Some (VNum (int (length (commentsOf (comment_step db c) p))))"
    using Cons.prems(1) ok Cons.prems(2) by (rule step_keeps_counter)
  have "commentCount (comment_run (comment_step db c) cs) p
          = Some (VNum (int (length (commentsOf (comment_run (comment_step db c) cs) p))))"
    using d' i' rest by (rule Cons.IH)
  then show ?case by simp
qed


theorem comment_counter_invariant_witness:
  "commentCount (comment_run db_one_post three_calls) ''p1'' = Some (VNum 1)
   \<and> map fst (commentsOf (comment_run db_one_post three_calls) ''p1'') = [''c2'']"
proof -
  have d: "distinct (map fst (db_one_post COMMENTS_COLLECTION))" by (simp add: comment_eval)
  have i: "commentCount db_one_post ''p1'' = Some (VNum (int (length (commentsOf db_one_post ''p1''))))"
    by (simp add: comment_eval)
  have ok: "calls_ok db_one_post three_calls" by (simp add: comment_eval)
  have c: "map fst (commentsOf (comment_run db_one_post three_calls) ''p1'') = [''c2'']"
    by (simp add: comment_eval)
  then have "length (commentsOf (comment_run db_one_post three_calls) ''p1'') = 1"
    by (metis length_map list.size(3,4) One_nat_def add.left_neutral)
  with comment_counter_invariant [OF d i ok] c show ?thesis by simp
qed

section \<open>Properties of the bookmark repository\<close>

lemma filter_update_count:
  "length (filter P (AList.update k v al)) \<le> length (filter P al) + (if P (k, v) then 1 else 0)"
  by (induction al) auto

lemma filter_delete_le:
  "length (filter P (AList.delete k al)) \<le> length (filter P al)"
  by (induction al) auto

lemma addBookmark_cases:
  "snd (addBookmark env now newId db u' p') = db \<or>
   ((env GetDocs = None \<longrightarrow> bookmarksOf db u' p' = []) \<and>
    snd (addBookmark env now newId db u' p') =
      db(BOOKMARKS_COLLECTION := AList.update newId
           [(''userId'', VStr u'), (''postId'', VStr p'), (''createdAt'', VTime now)]
           (db BOOKMARKS_COLLECTION)))"
  by (auto simp: addBookmark_def isBookmarked_def setDoc_def split: option.splits if_splits)

lemma removeBookmark_cases:
  "snd (removeBookmark env db u' p') = db \<or>
   (\<exists>i. snd (removeBookmark env db u' p') =
      db(BOOKMARKS_COLLECTION := AList.delete i (db BOOKMARKS_COLLECTION)))"
  by (auto simp: removeBookmark_def deleteDoc_def split: option.splits if_splits list.splits)

lemma bookmark_step_unique:
  assumes inv: "length (bookmarksOf db u p) \<le> 1" and q: "query_succeeds c"
  shows "length (bookmarksOf (bookmark_step db c) u p) \<le> 1"
proof (cases c)
  case (AddCall env now newId u' p')
  let ?b = "[(''userId'', VStr u'), (''postId'', VStr p'), (''createdAt'', VTime now)]"
  let ?P = "\<lambda>(i, b). map_of b ''userId'' = Some (VStr u) \<and> map_of b ''postId'' = Some (VStr p)"
  from q AddCall have g: "env GetDocs = None" by simp
  from addBookmark_cases [of env now newId db u' p'] show ?thesis
  proof
    assume "snd (addBookmark env now newId db u' p') = db"
    with inv AddCall show ?thesis by simp
  next
    assume a: "(env GetDocs = None \<longrightarrow> bookmarksOf db u' p' = []) \<and>
      snd (addBookmark env now newId db u' p') =
        db(BOOKMARKS_COLLECTION := AList.update newId ?b (db BOOKMARKS_COLLECTION))"
    with g have e: "bookmarksOf db u' p' = []" by simp
    from a have bs: "bookmarksOf (bookmark_step db c) u p
        = filter ?P (AList.update newId ?b (db BOOKMARKS_COLLECTION))"
      by (simp add: AddCall bookmarksOf_def)
    note le = filter_update_count [of ?P newId ?b "db BOOKMARKS_COLLECTION"]
    show ?thesis
    proof (cases "u' = u \<and> p' = p")
      case True
      with e have z: "length (filter ?P (db BOOKMARKS_COLLECTION)) = 0" by (simp add: bookmarksOf_def)
      have "length (filter ?P (AList.update newId ?b (db BOOKMARKS_COLLECTION)))
              \<le> length (filter ?P (db BOOKMARKS_COLLECTION)) + 1"
        by (rule order_trans [OF le]) simp
      with z show ?thesis unfolding bs by simp
    next
      case False
      then have "\<not> ?P (newId, ?b)" by auto
      then have "length (filter ?P (AList.update newId ?b (db BOOKMARKS_COLLECTION)))
              \<le> length (filter ?P (db BOOKMARKS_COLLECTION))"
        using le by (simp split: if_splits)
      with inv show ?thesis unfolding bs by (simp add: bookmarksOf_def)
    qed
  qed
next
  case (RemoveCall env u' p')
  let ?P = "\<lambda>(i, b). map_of b ''userId'' = Some (VStr u) \<and> map_of b ''postId'' = Some (VStr p)"
  from removeBookmark_cases [of env db u' p'] show ?thesis
  proof
    assume "snd (removeBookmark env db u' p') = db"
    with inv RemoveCall show ?thesis by simp
  next
    assume "\<exists>i. snd (removeBookmark env db u' p') =
      db(BOOKMARKS_COLLECTION := AList.delete i (db BOOKMARKS_COLLECTION))"
    then obtain i where "snd (removeBookmark env db u' p') =
      db(BOOKMARKS_COLLECTION := AList.delete i (db BOOKMARKS_COLLECTION))" ..
    then have "bookmarksOf (bookmark_step db c) u p
        = filter ?P (AList.delete i (db BOOKMARKS_COLLECTION))"
      by (simp add: RemoveCall bookmarksOf_def)
    moreover have "length (filter ?P (AList.delete i (db BOOKMARKS_COLLECTION)))
        \<le> length (filter ?P (db BOOKMARKS_COLLECTION))"
      by (rule filter_delete_le)
    ultimately show ?thesis using inv by (simp add: bookmarksOf_def)
  qed
qed

lemma bookmark_run_unique:
  "length (bookmarksOf db u p) \<le> 1 \<Longrightarrow> list_all query_succeeds calls \<Longrightarrow>
   length (bookmarksOf (bookmark_run db calls) u p) \<le> 1"
proof (induction calls arbitrary: db)
  case Nil
  then show ?case by simp
next
  case (Cons c cs)
  from Cons.prems have "length (bookmarksOf (bookmark_step db c) u p) \<le> 1"
    using bookmark_step_unique by simp
  moreover from Cons.prems have "list_all query_succeeds cs" by simp
  ultimately show ?case using Cons.IH by simp
qed

lemma addBookmark_already:
  "bookmarksOf db u p \<noteq> [] \<Longrightarrow> env GetDocs = None \<Longrightarrow>
   addBookmark env now newId db u p =
     (Inl (new_Error (if u = [] \<or> p = [] then BookmarkIdsRequired else AlreadyBookmarked)), db)"
  by (cases "bookmarksOf db u p") (auto simp: addBookmark_def isBookmarked_def rethrow_def)


lemmas bookmark_eval = addBookmark_def removeBookmark_def isBookmarked_def bookmarksOf_def
  setDoc_def deleteDoc_def no_faults_def rethrow_def BOOKMARKS_COLLECTION_def
  db_bookmarked_def bookmark_calls_def

text \<open>
  C9: from a store with at most one bookmark document for the pair, after every sequence
  of \<open>addBookmark\<close> and \<open>removeBookmark\<close> calls, run one after the other, in which the
  existence query of each \<open>addBookmark\<close> succeeds, at most one bookmark document for the
  pair exists; and \<open>addBookmark\<close> of a pair already bookmarked throws (the
  already-bookmarked error, or the required-ids error when an id is empty) and writes
  nothing.
\<close>

theorem bookmark_uniqueness:
  assumes "length (bookmarksOf db userId postId) \<le> 1"
    and "list_all query_succeeds calls"
  shows "length (bookmarksOf (bookmark_run db calls) userId postId) \<le> 1
       \<and> (bookmarksOf db userId postId \<noteq> [] \<and> env GetDocs = None \<longrightarrow>
            addBookmark env now newId db userId postId =
              (Inl (new_Error (if userId = [] \<or> postId = []
                               then BookmarkIdsRequired else AlreadyBookmarked)), db))"
  using assms bookmark_run_unique addBookmark_already by blast

theorem bookmark_uniqueness_witness:
  "map fst (bookmarksOf (bookmark_run db_bookmarked bookmark_calls) ''u1'' ''p1'') = [''b3'']
   \<and> addBookmark no_faults 4 ''b2'' db_bookmarked ''u1'' ''p1''
        = (Inl (new_Error AlreadyBookmarked), db_bookmarked)"
proof -
  have i: "length (bookmarksOf db_bookmarked ''u1'' ''p1'') \<le> 1" by (simp add: bookmark_eval)
  have q: "list_all query_succeeds bookmark_calls" by (simp add: bookmark_eval)
  have b: "bookmarksOf db_bookmarked ''u1'' ''p1'' \<noteq> []" by (simp add: bookmark_eval)
  have g: "no_faults GetDocs = None" by (simp add: no_faults_def)
  have r: "map fst (bookmarksOf (bookmark_run db_bookmarked bookmark_calls) ''u1'' ''p1'') = [''b3'']"
    by (simp add: bookmark_eval)
  from bookmark_uniqueness [OF i q, of no_faults 4 "''b2''"] b g r show ?thesis by simp
qed

section \<open>Properties of the category administration\<close>

lemma admin_retry_success:
  "attempts < ADMIN_MAX_RETRY_COUNT \<Longrightarrow> body (Suc attempts) db = (Inr r, db') \<Longrightarrow>
   admin_retry body wrap attempts db = (Inr r, Suc attempts, db')"
  by (subst admin_retry.simps) simp

lemma admin_retry_failing:
  assumes fail: "\<And>k. body k db = (Inl (e k), db)"
  shows "attempts < ADMIN_MAX_RETRY_COUNT \<Longrightarrow>
         admin_retry body wrap attempts db
           = (Inl (new_Error (wrap (message (e ADMIN_MAX_RETRY_COUNT)))), ADMIN_MAX_RETRY_COUNT, db)"
proof (induction "ADMIN_MAX_RETRY_COUNT - attempts" arbitrary: attempts)
  case 0
  then show ?case by simp
next
  case (Suc n)
  show ?case
  proof (cases "Suc attempts < ADMIN_MAX_RETRY_COUNT")
    case True
    with Suc have ih: "admin_retry body wrap (Suc attempts) db
           = (Inl (new_Error (wrap (message (e ADMIN_MAX_RETRY_COUNT)))), ADMIN_MAX_RETRY_COUNT, db)"
      by simp
    show ?thesis
      using Suc.prems True ih by (subst admin_retry.simps) (simp add: fail Let_def)
  next
    case False
    with Suc.prems have "Suc attempts = ADMIN_MAX_RETRY_COUNT" by simp
    then show ?thesis
      using Suc.prems by (subst admin_retry.simps) (simp add: fail getErrorMessage_def Let_def)
  qed
qed


lemma admin_retry_keeps:
  assumes keep: "\<And>k d e d'. body k d = (Inl e, d') \<Longrightarrow> d' = d"
  shows "admin_retry body wrap attempts db = (Inl e, n, db') \<Longrightarrow> db' = db"
proof (induction "ADMIN_MAX_RETRY_COUNT - attempts" arbitrary: attempts)
  case 0
  then show ?case by (subst (asm) admin_retry.simps) simp
next
  case (Suc m)
  then have lt: "attempts < ADMIN_MAX_RETRY_COUNT" by simp
  obtain r d1 where b: "body (attempts + 1) db = (r, d1)" by (cases "body (attempts + 1) db")
  show ?case
  proof (cases r)
    case (Inr x)
    with Suc.prems lt b show ?thesis by (subst (asm) admin_retry.simps) simp
  next
    case (Inl e1)
    with b keep [of "attempts + 1" db e1 d1] have d1: "d1 = db" by simp
    show ?thesis
    proof (cases "attempts + 1 \<ge> ADMIN_MAX_RETRY_COUNT")
      case True
      with Suc.prems lt b Inl d1 show ?thesis
        by (subst (asm) admin_retry.simps) (simp add: Let_def)
    next
      case False
      with Suc.prems lt b Inl d1
      have rec: "admin_retry body wrap (attempts + 1) db = (Inl e, n, db')"
        by (subst (asm) admin_retry.simps) (simp add: Let_def split: if_splits)
      from Suc.hyps(2) have "m = ADMIN_MAX_RETRY_COUNT - (attempts + 1)" by simp
      from Suc.hyps(1) [OF this rec] show ?thesis .
    qed
  qed
qed


lemma find_None_subset: "find (\<lambda>i. i \<notin> A) xs = None \<longleftrightarrow> set xs \<subseteq> A"
  by (auto simp: find_None_iff)

lemma reorder_try_ok:
  assumes "getDoc db SETTINGS_COLLECTION GLOBAL_SETTINGS_ID = Some sd"
    and "categories_of sd = Inr cs"
    and "(\<lambda>c. field c ''id'') ` set l = (\<lambda>c. field c ''id'') ` set cs"
  shows "reorderCategories_try no_faults now l db =
           (Inr True, db(SETTINGS_COLLECTION := AList.update GLOBAL_SETTINGS_ID
              (applyWrites sd [(''categories'', Put (VArr l)), (''updatedAt'', Put (VTime now))])
              (db SETTINGS_COLLECTION)))"
proof -
  from assms(3) have f1: "find (\<lambda>i. i \<notin> set (map (\<lambda>c. field c ''id'') l)) (map (\<lambda>c. field c ''id'') cs) = None"
    and f2: "find (\<lambda>i. i \<notin> set (map (\<lambda>c. field c ''id'') cs)) (map (\<lambda>c. field c ''id'') l) = None"
    by (simp_all add: find_None_subset)
  from assms(1) have u: "updateDoc db SETTINGS_COLLECTION GLOBAL_SETTINGS_ID
      [(''categories'', Put (VArr l)), (''updatedAt'', Put (VTime now))]
     = Inr (db(SETTINGS_COLLECTION := AList.update GLOBAL_SETTINGS_ID
              (applyWrites sd [(''categories'', Put (VArr l)), (''updatedAt'', Put (VTime now))])
              (db SETTINGS_COLLECTION)))"
    by (simp add: updateDoc_def getDoc_def)
  show ?thesis
    unfolding reorderCategories_try_def Let_def
    by (simp only: assms(1,2) f1 f2 u no_faults_def option.case sum.case)
qed

lemma reorder_try_fail:
  assumes "getDoc db SETTINGS_COLLECTION GLOBAL_SETTINGS_ID = Some sd"
    and "categories_of sd = Inr cs"
    and "(\<lambda>c. field c ''id'') ` set l \<noteq> (\<lambda>c. field c ''id'') ` set cs"
  shows "\<exists>e. reorderCategories_try no_faults now l db = (Inl e, db)"
proof -
  from assms(3) have "find (\<lambda>i. i \<notin> set (map (\<lambda>c. field c ''id'') l)) (map (\<lambda>c. field c ''id'') cs) \<noteq> None
    \<or> find (\<lambda>i. i \<notin> set (map (\<lambda>c. field c ''id'') cs)) (map (\<lambda>c. field c ''id'') l) \<noteq> None"
    unfolding find_None_subset by auto
  then show ?thesis
    unfolding reorderCategories_try_def Let_def
    by (auto simp: assms(1,2) no_faults_def split: option.splits)
qed

lemma reorder_try_keeps:
  "reorderCategories_try env now l d = (Inl e, d') \<Longrightarrow> d' = d"
  unfolding reorderCategories_try_def Let_def
  by (auto split: option.splits sum.splits)

lemma admin_gate_pass:
  "fst (getAdminSession now item) \<noteq> None \<Longrightarrow> fst (admin_gate now item db run) = run"
  by (cases "getAdminSession now item")
     (auto simp: admin_gate_def verifyAdminAuth_def isAdminAuthenticated_def)

lemma admin_gate_keeps:
  assumes "\<And>e n db'. run = (Inl e, n, db') \<Longrightarrow> db' = db"
  shows "fst (fst (admin_gate now item db run)) = Inl e \<Longrightarrow> snd (snd (fst (admin_gate now item db run))) = db"
  using assms
  by (cases "getAdminSession now item"; cases run)
     (auto simp: admin_gate_def verifyAdminAuth_def isAdminAuthenticated_def split: if_splits)

text \<open>
  C2, as stated, fails: the check compares the two sets of ids, so a list that repeats an
  id (not a permutation of the stored ids) is accepted and stored.
\<close>

theorem reorderCategories_accepts_duplicate:
  "fst (fst (reorderCategories (\<lambda>_. no_faults) 5 admin_item db_categories
          [newCategory ''tech'' ''Tech'' None, newCategory ''tech'' ''Tech'' None,
           newCategory ''general'' ''General'' None])) = Inr True
   \<and> snd (snd (fst (reorderCategories (\<lambda>_. no_faults) 5 admin_item db_categories
          [newCategory ''tech'' ''Tech'' None, newCategory ''tech'' ''Tech'' None,
           newCategory ''general'' ''General'' None]))) ''settings''
     = [(''global-settings'',
         [(''categories'', VArr [VObj [(''id'', VStr ''tech''), (''name'', VStr ''Tech'')],
                                 VObj [(''id'', VStr ''tech''), (''name'', VStr ''Tech'')],
                                 VObj [(''id'', VStr ''general''), (''name'', VStr ''General'')]]),
          (''updatedAt'', VTime 5)])]
   \<and> db_categories ''settings''
     = [(''global-settings'',
         [(''categories'', VArr [VObj [(''id'', VStr ''general''), (''name'', VStr ''General'')],
                                 VObj [(''id'', VStr ''tech''), (''name'', VStr ''Tech'')]]),
          (''updatedAt'', VTime 1)])]"
  by code_simp

text \<open>
  C2, amended: with a valid admin session, the settings document present and no SDK call
  failing, \<open>reorderCategories(l)\<close> succeeds if and only if the set of ids of \<open>l\<close> equals
  the set of ids of the stored array, and then stores \<open>l\<close> as given; whenever it fails,
  the store is unchanged.
\<close>

theorem reorderCategories_iff:
  "(fst (getAdminSession now item) \<noteq> None
      \<and> getDoc db SETTINGS_COLLECTION GLOBAL_SETTINGS_ID = Some sd
      \<and> categories_of sd = Inr cs \<and> (\<forall>k. env k = no_faults) \<longrightarrow>
      ((fst (fst (reorderCategories env now item db l)) = Inr True)
          \<longleftrightarrow> (\<lambda>c. field c ''id'') ` set l = (\<lambda>c. field c ''id'') ` set cs)
      \<and> ((\<lambda>c. field c ''id'') ` set l = (\<lambda>c. field c ''id'') ` set cs \<longrightarrow>
            (\<exists>sd'. getDoc (snd (snd (fst (reorderCategories env now item db l))))
                     SETTINGS_COLLECTION GLOBAL_SETTINGS_ID = Some sd'
                  \<and> map_of sd' ''categories'' = Some (VArr l))))
   \<and> (\<forall>e. fst (fst (reorderCategories env now item db l)) = Inl e \<longrightarrow>
          snd (snd (fst (reorderCategories env now item db l))) = db)"
proof (intro conjI impI allI)
  fix e
  assume "fst (fst (reorderCategories env now item db l)) = Inl e"
  then show "snd (snd (fst (reorderCategories env now item db l))) = db"
    unfolding reorderCategories_def
    by (rule admin_gate_keeps [rotated]) (rule admin_retry_keeps [OF reorder_try_keeps])
next
  assume a: "fst (getAdminSession now item) \<noteq> None
      \<and> getDoc db SETTINGS_COLLECTION GLOBAL_SETTINGS_ID = Some sd
      \<and> categories_of sd = Inr cs \<and> (\<forall>k. env k = no_faults)"
  then have r: "fst (reorderCategories env now item db l)
      = admin_retry (\<lambda>k. reorderCategories_try no_faults now l) CategoryReorderFailed 0 db"
    by (simp add: reorderCategories_def admin_gate_pass)
  show "(fst (fst (reorderCategories env now item db l)) = Inr True)
          \<longleftrightarrow> (\<lambda>c. field c ''id'') ` set l = (\<lambda>c. field c ''id'') ` set cs"
  proof (cases "(\<lambda>c. field c ''id'') ` set l = (\<lambda>c. field c ''id'') ` set cs")
    case True
    with a reorder_try_ok [of db sd cs l now] show ?thesis
      by (simp add: r admin_retry_success ADMIN_MAX_RETRY_COUNT_def)
  next
    case False
    with a reorder_try_fail [of db sd cs l now] obtain e where
      "reorderCategories_try no_faults now l db = (Inl e, db)" by blast
    then have "admin_retry (\<lambda>k. reorderCategories_try no_faults now l) CategoryReorderFailed 0 db
        = (Inl (new_Error (CategoryReorderFailed (message e))), ADMIN_MAX_RETRY_COUNT, db)"
      by (intro admin_retry_failing [where e = "\<lambda>_. e"]) (simp_all add: ADMIN_MAX_RETRY_COUNT_def)
    with False show ?thesis by (simp add: r)
  qed
next
  assume a: "fst (getAdminSession now item) \<noteq> None
      \<and> getDoc db SETTINGS_COLLECTION GLOBAL_SETTINGS_ID = Some sd
      \<and> categories_of sd = Inr cs \<and> (\<forall>k. env k = no_faults)"
    and eq: "(\<lambda>c. field c ''id'') ` set l = (\<lambda>c. field c ''id'') ` set cs"
  then have r: "fst (reorderCategories env now item db l)
      = admin_retry (\<lambda>k. reorderCategories_try no_faults now l) CategoryReorderFailed 0 db"
    by (simp add: reorderCategories_def admin_gate_pass)
  from a eq reorder_try_ok [of db sd cs l now]
  have "fst (reorderCategories env now item db l) = (Inr True, Suc 0,
          db(SETTINGS_COLLECTION := AList.update GLOBAL_SETTINGS_ID
              (applyWrites sd [(''categories'', Put (VArr l)), (''updatedAt'', Put (VTime now))])
              (db SETTINGS_COLLECTION)))"
    by (simp add: r admin_retry_success ADMIN_MAX_RETRY_COUNT_def)
  then show "\<exists>sd'. getDoc (snd (snd (fst (reorderCategories env now item db l))))
                     SETTINGS_COLLECTION GLOBAL_SETTINGS_ID = Some sd'
                  \<and> map_of sd' ''categories'' = Some (VArr l)"
    by (simp add: getDoc_def update_conv' applyWrite_def)
qed


theorem reorderCategories_iff_witness:
  "fst (fst (reorderCategories (\<lambda>_. no_faults) 5 admin_item db_categories
          [newCategory ''tech'' ''Tech'' None, newCategory ''general'' ''General'' None])) = Inr True
   \<and> (\<exists>sd'. getDoc (snd (snd (fst (reorderCategories (\<lambda>_. no_faults) 5 admin_item db_categories
          [newCategory ''tech'' ''Tech'' None, newCategory ''general'' ''General'' None]))))
            SETTINGS_COLLECTION GLOBAL_SETTINGS_ID = Some sd'
         \<and> map_of sd' ''categories''
             = Some (VArr [newCategory ''tech'' ''Tech'' None, newCategory ''general'' ''General'' None]))
   \<and> fst (fst (reorderCategories (\<lambda>_. no_faults) 5 admin_item db_categories
          [newCategory ''tech'' ''Tech'' None])) \<noteq> Inr True"
proof -
  let ?cs = "[newCategory ''general'' ''General'' None, newCategory ''tech'' ''Tech'' None]"
  let ?l = "[newCategory ''tech'' ''Tech'' None, newCategory ''general'' ''General'' None]"
  let ?l2 = "[newCategory ''tech'' ''Tech'' None]"
  have a: "fst (getAdminSession 5 admin_item) \<noteq> None" by code_simp
  have d: "getDoc db_categories SETTINGS_COLLECTION GLOBAL_SETTINGS_ID = Some settings1"
    by code_simp
  have c: "categories_of settings1 = Inr ?cs" by code_simp
  have e: "(\<lambda>c. field c ''id'') ` set ?l = (\<lambda>c. field c ''id'') ` set ?cs"
    by (auto simp: newCategory_def)
  have n: "(\<lambda>c. field c ''id'') ` set ?l2 \<noteq> (\<lambda>c. field c ''id'') ` set ?cs"
    by (auto simp: newCategory_def)
  have nf: "\<forall>k. (\<lambda>_. no_faults) k = no_faults" by simp
  from reorderCategories_iff [of 5 admin_item db_categories settings1 ?cs "\<lambda>_. no_faults" ?l]
       reorderCategories_iff [of 5 admin_item db_categories settings1 ?cs "\<lambda>_. no_faults" ?l2]
       a d c e n nf
  show ?thesis by blast
qed

lemma removeAll_found:
  "distinct (map f xs) \<Longrightarrow> find (\<lambda>x. f x = a) xs = Some y \<Longrightarrow>
   removeAll y xs = filter (\<lambda>x. f x \<noteq> a) xs"
proof (induction xs)
  case Nil
  then show ?case by simp
next
  case (Cons x xs)
  show ?case
  proof (cases "f x = a")
    case True
    with Cons.prems have y: "y = x" and nin: "a \<notin> f ` set xs" by auto
    from nin have "filter (\<lambda>x. f x \<noteq> a) xs = xs" by (auto simp: filter_id_conv)
    moreover from nin True have "x \<notin> set xs" by auto
    ultimately show ?thesis using True y by simp
  next
    case False
    with Cons.prems have f: "find (\<lambda>x. f x = a) xs = Some y" and d: "distinct (map f xs)" by auto
    from f have "f y = a" by (auto simp: find_Some_iff)
    with False have "y \<noteq> x" by auto
    with Cons.IH [OF d f] False show ?thesis by simp
  qed
qed

lemma update_all_ok:
  "distinct js \<Longrightarrow> set js \<subseteq> fst ` set (db c) \<Longrightarrow>
   \<exists>db'. update_all db c js ws = Inr db' \<and> (\<forall>c'. c' \<noteq> c \<longrightarrow> db' c' = db c')
     \<and> (\<forall>j. map_of (db' c) j = (if j \<in> set js then map_option (\<lambda>d. applyWrites d ws) (map_of (db c) j)
                                  else map_of (db c) j))"
proof (induction js arbitrary: db)
  case Nil
  then show ?case by simp
next
  case (Cons i js)
  from Cons.prems have "i \<in> fst ` set (db c)" by simp
  then obtain d where d: "map_of (db c) i = Some d"
    by (metis map_of_eq_None_iff not_Some_eq)
  let ?db1 = "db(c := AList.update i (applyWrites d ws) (db c))"
  have u: "updateDoc db c i ws = Inr ?db1" by (simp add: updateDoc_def d)
  have dom: "fst ` set (?db1 c) = fst ` set (db c)"
    using \<open>i \<in> fst ` set (db c)\<close> by (auto simp: dom_update)
  from Cons.prems have "distinct js" by simp
  moreover from Cons.prems have "set js \<subseteq> fst ` set (?db1 c)" unfolding dom by simp
  ultimately have "distinct js" "set js \<subseteq> fst ` set (?db1 c)" by blast+
  from Cons.IH [of ?db1, OF this] obtain db' where
    r: "update_all ?db1 c js ws = Inr db'" and
    o: "\<forall>c'. c' \<noteq> c \<longrightarrow> db' c' = ?db1 c'" and
    m: "\<forall>j. map_of (db' c) j = (if j \<in> set js then map_option (\<lambda>d. applyWrites d ws) (map_of (?db1 c) j)
                                  else map_of (?db1 c) j)"
    by blast
  from Cons.prems have ni: "i \<notin> set js" by simp
  have "update_all db c (i # js) ws = Inr db'" by (simp add: u r)
  moreover from o have "\<forall>c'. c' \<noteq> c \<longrightarrow> db' c' = db c'" by simp
  moreover have "\<forall>j. map_of (db' c) j = (if j \<in> set (i # js) then map_option (\<lambda>d. applyWrites d ws) (map_of (db c) j)
                                  else map_of (db c) j)"
    using m ni d by (auto simp: update_conv')
  ultimately show ?case by blast
qed

lemma filter_keys:
  "distinct (map fst al) \<Longrightarrow>
   (j \<in> fst ` set (filter (\<lambda>(i, d). P d) al)) \<longleftrightarrow> (\<exists>d. map_of al j = Some d \<and> P d)"
  by (induction al) (auto simp: rev_image_eqI)


lemma categories_of_array: "map_of sd ''categories'' = Some (VArr cats) \<Longrightarrow> categories_of sd = Inr cats"
  by (simp add: categories_of_def)

lemma del_try_notfound:
  assumes "getDoc db SETTINGS_COLLECTION GLOBAL_SETTINGS_ID = Some sd"
    and "map_of sd ''categories'' = Some (VArr cats)"
    and "Some (VStr c) \<notin> (\<lambda>cat. field cat ''id'') ` set cats"
  shows "deleteCategory_try no_faults now c db = (Inl (new_Error (CategoryNotFound c)), db)"
proof -
  from assms(3) have "find (\<lambda>cat. field cat ''id'' = Some (VStr c)) cats = None"
    by (force simp: find_None_iff image_iff)
  then show ?thesis
    unfolding deleteCategory_try_def
    by (simp add: assms(1) categories_of_array [OF assms(2)] no_faults_def)
qed

lemma del_try_notarget:
  assumes "getDoc db SETTINGS_COLLECTION GLOBAL_SETTINGS_ID = Some sd"
    and "map_of sd ''categories'' = Some (VArr cats)"
    and "Some (VStr c) \<in> (\<lambda>cat. field cat ''id'') ` set cats"
    and "postsInCategory db c \<noteq> []" and "remaining cats c = []"
  shows "deleteCategory_try no_faults now c db = (Inl (new_Error NoTargetCategory), db)"
proof -
  from assms(3) obtain y where "find (\<lambda>cat. field cat ''id'' = Some (VStr c)) cats = Some y"
    by (cases "find (\<lambda>cat. field cat ''id'' = Some (VStr c)) cats") (auto simp: find_None_iff)
  then show ?thesis
    unfolding deleteCategory_try_def Let_def
    by (simp add: assms(1,4,5) categories_of_array [OF assms(2)] no_faults_def)
qed

lemma del_try_ok:
  assumes doc: "getDoc db SETTINGS_COLLECTION GLOBAL_SETTINGS_ID = Some sd"
    and arr: "map_of sd ''categories'' = Some (VArr cats)"
    and ids: "\<forall>cat \<in> set cats. \<exists>s. s \<noteq> [] \<and> field cat ''id'' = Some (VStr s)"
    and dist: "distinct (map (\<lambda>cat. field cat ''id'') cats)"
    and pd: "distinct (map fst (db POSTS_COLLECTION))"
    and mem: "Some (VStr c) \<in> (\<lambda>cat. field cat ''id'') ` set cats"
    and ok: "\<not> (postsInCategory db c \<noteq> [] \<and> remaining cats c = [])"
  shows "\<exists>db' sd'. deleteCategory_try no_faults now c db = (Inr True, db')
     \<and> getDoc db' SETTINGS_COLLECTION GLOBAL_SETTINGS_ID = Some sd'
     \<and> map_of sd' ''categories'' = Some (VArr (remaining cats c))
     \<and> (\<forall>j d. getDoc db POSTS_COLLECTION j = Some d \<and> map_of d ''category'' \<noteq> Some (VStr c)
            \<longrightarrow> getDoc db' POSTS_COLLECTION j = Some d)
     \<and> (\<forall>j d. getDoc db POSTS_COLLECTION j = Some d \<and> map_of d ''category'' = Some (VStr c)
            \<longrightarrow> (\<exists>d' t rest. getDoc db' POSTS_COLLECTION j = Some d'
                    \<and> remaining cats c = t # rest \<and> map_of d' ''category'' = field t ''id''))"
proof -
  from mem obtain y where y: "find (\<lambda>cat. field cat ''id'' = Some (VStr c)) cats = Some y"
    by (cases "find (\<lambda>cat. field cat ''id'' = Some (VStr c)) cats") (auto simp: find_None_iff)
  have rem: "removeAll y cats = remaining cats c"
    unfolding remaining_def by (rule removeAll_found [OF dist y])
  have ne: "SETTINGS_COLLECTION \<noteq> POSTS_COLLECTION"
    by (simp add: SETTINGS_COLLECTION_def POSTS_COLLECTION_def)
  let ?sw = "[(''categories'', ArrayRemove y), (''updatedAt'', Put (VTime now))]"
  let ?sd' = "applyWrites sd ?sw"
  have cat': "map_of ?sd' ''categories'' = Some (VArr (remaining cats c))"
    by (simp add: applyWrite_def update_conv' arr rem)
  have inposts: "\<And>j. j \<in> set (map fst (postsInCategory db c)) \<longleftrightarrow>
       (\<exists>d. getDoc db POSTS_COLLECTION j = Some d \<and> map_of d ''category'' = Some (VStr c))"
    unfolding postsInCategory_def getDoc_def using filter_keys [OF pd] by simp
  show ?thesis
  proof (cases "postsInCategory db c = []")
    case True
    let ?db' = "db(SETTINGS_COLLECTION := AList.update GLOBAL_SETTINGS_ID ?sd' (db SETTINGS_COLLECTION))"
    have u: "updateDoc db SETTINGS_COLLECTION GLOBAL_SETTINGS_ID ?sw = Inr ?db'"
      using doc by (simp add: updateDoc_def getDoc_def)
    have run: "deleteCategory_try no_faults now c db = (Inr True, ?db')"
      unfolding deleteCategory_try_def Let_def
      by (simp add: doc categories_of_array [OF arr] y True u no_faults_def)
    have s: "getDoc ?db' SETTINGS_COLLECTION GLOBAL_SETTINGS_ID = Some ?sd'"
      by (simp add: getDoc_def update_conv')
    have p: "\<And>j. getDoc ?db' POSTS_COLLECTION j = getDoc db POSTS_COLLECTION j"
      using ne by (simp add: getDoc_def)
    from True inposts have none: "\<And>j d. getDoc db POSTS_COLLECTION j = Some d \<Longrightarrow>
        map_of d ''category'' \<noteq> Some (VStr c)" by auto
    show ?thesis using run s cat' p none by auto
  next
    case False
    with ok obtain t rest where tr: "remaining cats c = t # rest"
      by (cases "remaining cats c") auto
    then have "t \<in> set cats" unfolding remaining_def
      by (metis filter_is_subset list.set_intros(1) subsetD)
    with ids obtain s where s: "s \<noteq> []" "field t ''id'' = Some (VStr s)" by blast
    let ?pw = "[(''category'', Put (VStr s)), (''updatedAt'', Put (VTime now))]"
    have dj: "distinct (map fst (postsInCategory db c))"
      unfolding postsInCategory_def using pd by (rule distinct_map_filter)
    have sub: "set (map fst (postsInCategory db c)) \<subseteq> fst ` set (db POSTS_COLLECTION)"
      unfolding postsInCategory_def by auto
    from update_all_ok [of "map fst (postsInCategory db c)" db POSTS_COLLECTION ?pw, OF dj sub] obtain db1 where
      u1: "update_all db POSTS_COLLECTION (map fst (postsInCategory db c)) ?pw = Inr db1"
      and o1: "\<forall>c'. c' \<noteq> POSTS_COLLECTION \<longrightarrow> db1 c' = db c'"
      and m1: "\<forall>j. map_of (db1 POSTS_COLLECTION) j =
          (if j \<in> set (map fst (postsInCategory db c))
           then map_option (\<lambda>d. applyWrites d ?pw) (map_of (db POSTS_COLLECTION) j)
           else map_of (db POSTS_COLLECTION) j)"
      by blast
    from o1 ne have s1: "db1 SETTINGS_COLLECTION = db SETTINGS_COLLECTION" by simp
    let ?db' = "db1(SETTINGS_COLLECTION := AList.update GLOBAL_SETTINGS_ID ?sd' (db SETTINGS_COLLECTION))"
    have u: "updateDoc db1 SETTINGS_COLLECTION GLOBAL_SETTINGS_ID ?sw = Inr ?db'"
      using doc by (simp add: updateDoc_def getDoc_def s1)
    have run: "deleteCategory_try no_faults now c db = (Inr True, ?db')"
      unfolding deleteCategory_try_def Let_def
      by (simp add: doc categories_of_array [OF arr] y False tr s u1 u no_faults_def)
    have sg: "getDoc ?db' SETTINGS_COLLECTION GLOBAL_SETTINGS_ID = Some ?sd'"
      by (simp add: getDoc_def update_conv')
    have p: "\<And>j. getDoc ?db' POSTS_COLLECTION j =
          (if j \<in> set (map fst (postsInCategory db c))
           then map_option (\<lambda>d. applyWrites d ?pw) (getDoc db POSTS_COLLECTION j)
           else getDoc db POSTS_COLLECTION j)"
      using ne m1 by (simp add: getDoc_def)
    have keep: "\<forall>j d. getDoc db POSTS_COLLECTION j = Some d \<and> map_of d ''category'' \<noteq> Some (VStr c)
            \<longrightarrow> getDoc ?db' POSTS_COLLECTION j = Some d"
      unfolding p inposts by auto
    have aw: "\<And>d. map_of (applyWrites d ?pw) ''category'' = Some (VStr s)"
      by (simp add: applyWrite_def update_conv')
    have move: "\<forall>j d. getDoc db POSTS_COLLECTION j = Some d \<and> map_of d ''category'' = Some (VStr c)
            \<longrightarrow> (\<exists>d' t rest. getDoc ?db' POSTS_COLLECTION j = Some d'
                    \<and> remaining cats c = t # rest \<and> map_of d' ''category'' = field t ''id'')"
    proof (intro allI impI)
      fix j d
      assume a: "getDoc db POSTS_COLLECTION j = Some d \<and> map_of d ''category'' = Some (VStr c)"
      then have "j \<in> set (map fst (postsInCategory db c))" unfolding inposts by blast
      with a have "getDoc ?db' POSTS_COLLECTION j = Some (applyWrites d ?pw)"
        by (simp only: p if_True option.map)
      with aw [of d] tr s(2) show "\<exists>d' t rest. getDoc ?db' POSTS_COLLECTION j = Some d'
                    \<and> remaining cats c = t # rest \<and> map_of d' ''category'' = field t ''id''"
        by (metis (no_types))
    qed
    show ?thesis using run sg cat' keep move by blast
  qed
qed


lemma del_gate:
  "fst (getAdminSession now item) \<noteq> None \<Longrightarrow> \<forall>k. env k = no_faults \<Longrightarrow>
   fst (deleteCategory env now item db c)
     = admin_retry (\<lambda>k. deleteCategory_try no_faults now c) CategoryDeleteFailed 0 db"
  by (simp add: deleteCategory_def admin_gate_pass)

text \<open>
  C1, as stated, fails: for an id that is not the id of a stored category the function
  throws (the not-found error, after five attempts) and reassigns nothing, although a
  post references the id and other categories exist.
\<close>

theorem deleteCategory_unknown_id:
  "fst (fst (deleteCategory (\<lambda>_. no_faults) 5 admin_item db_orphan ''news''))
     = Inl (new_Error (CategoryDeleteFailed (CategoryNotFound ''news'')))
   \<and> snd (snd (fst (deleteCategory (\<lambda>_. no_faults) 5 admin_item db_orphan ''news''))) ''posts''
     = [(''p1'', [(''title'', VStr ''hello''), (''category'', VStr ''news''),
                  (''authorId'', VStr ''u1''), (''createdAt'', VTime 1), (''updatedAt'', VTime 1),
                  (''commentCount'', VNum 0)])]
   \<and> snd (snd (fst (deleteCategory (\<lambda>_. no_faults) 5 admin_item db_orphan ''news''))) ''settings''
     = [(''global-settings'',
         [(''categories'', VArr [VObj [(''id'', VStr ''general''), (''name'', VStr ''General'')],
                                 VObj [(''id'', VStr ''tech''), (''name'', VStr ''Tech'')]]),
          (''updatedAt'', VTime 1)])]"
  by code_simp

text \<open>
  C1, amended: with a valid admin session, no SDK call failing, and a settings document
  whose categories have distinct non-empty string ids (post ids distinct):
  \<open>deleteCategory(c)\<close> for an id \<open>c\<close> that is not stored fails without mutation; for a
  stored \<open>c\<close> it fails without mutation when at least one post references \<open>c\<close> and no
  other category exists; otherwise it succeeds at the first attempt, the stored array
  becomes the remaining array (the categories other than \<open>c\<close>, in order), every post
  whose category is \<open>c\<close> gets the id of the first category of that remaining array, and
  every other post is unchanged.
\<close>

theorem deleteCategory_spec:
  assumes auth: "fst (getAdminSession now item) \<noteq> None"
    and nf: "\<forall>k. env k = no_faults"
    and doc: "getDoc db SETTINGS_COLLECTION GLOBAL_SETTINGS_ID = Some sd"
    and arr: "map_of sd ''categories'' = Some (VArr cats)"
    and ids: "\<forall>cat \<in> set cats. \<exists>s. s \<noteq> [] \<and> field cat ''id'' = Some (VStr s)"
    and dist: "distinct (map (\<lambda>cat. field cat ''id'') cats)"
    and pd: "distinct (map fst (db POSTS_COLLECTION))"
  shows "(Some (VStr c) \<notin> (\<lambda>cat. field cat ''id'') ` set cats \<longrightarrow>
            fst (deleteCategory env now item db c)
              = (Inl (new_Error (CategoryDeleteFailed (CategoryNotFound c))), ADMIN_MAX_RETRY_COUNT, db))
       \<and> (Some (VStr c) \<in> (\<lambda>cat. field cat ''id'') ` set cats
            \<and> postsInCategory db c \<noteq> [] \<and> remaining cats c = [] \<longrightarrow>
            fst (deleteCategory env now item db c)
              = (Inl (new_Error (CategoryDeleteFailed NoTargetCategory)), ADMIN_MAX_RETRY_COUNT, db))
       \<and> (Some (VStr c) \<in> (\<lambda>cat. field cat ''id'') ` set cats
            \<and> \<not> (postsInCategory db c \<noteq> [] \<and> remaining cats c = []) \<longrightarrow>
            (\<exists>db' sd'. fst (deleteCategory env now item db c) = (Inr True, 1, db')
               \<and> getDoc db' SETTINGS_COLLECTION GLOBAL_SETTINGS_ID = Some sd'
               \<and> map_of sd' ''categories'' = Some (VArr (remaining cats c))
               \<and> (\<forall>j d. getDoc db POSTS_COLLECTION j = Some d
                      \<and> map_of d ''category'' \<noteq> Some (VStr c)
                      \<longrightarrow> getDoc db' POSTS_COLLECTION j = Some d)
               \<and> (\<forall>j d. getDoc db POSTS_COLLECTION j = Some d
                      \<and> map_of d ''category'' = Some (VStr c)
                      \<longrightarrow> (\<exists>d' t rest. getDoc db' POSTS_COLLECTION j = Some d'
                             \<and> remaining cats c = t # rest
                             \<and> map_of d' ''category'' = field t ''id''))))"
proof (intro conjI impI)
  assume "Some (VStr c) \<notin> (\<lambda>cat. field cat ''id'') ` set cats"
  from del_try_notfound [OF doc arr this]
  have "admin_retry (\<lambda>k. deleteCategory_try no_faults now c) CategoryDeleteFailed 0 db
      = (Inl (new_Error (CategoryDeleteFailed (message (new_Error (CategoryNotFound c))))),
         ADMIN_MAX_RETRY_COUNT, db)"
    by (intro admin_retry_failing [where e = "\<lambda>_. new_Error (CategoryNotFound c)"])
       (simp_all add: ADMIN_MAX_RETRY_COUNT_def)
  then show "fst (deleteCategory env now item db c)
              = (Inl (new_Error (CategoryDeleteFailed (CategoryNotFound c))), ADMIN_MAX_RETRY_COUNT, db)"
    by (simp add: del_gate [OF auth nf])
next
  assume "Some (VStr c) \<in> (\<lambda>cat. field cat ''id'') ` set cats
            \<and> postsInCategory db c \<noteq> [] \<and> remaining cats c = []"
  then have "deleteCategory_try no_faults now c db = (Inl (new_Error NoTargetCategory), db)"
    using del_try_notarget [OF doc arr] by blast
  then have "admin_retry (\<lambda>k. deleteCategory_try no_faults now c) CategoryDeleteFailed 0 db
      = (Inl (new_Error (CategoryDeleteFailed (message (new_Error NoTargetCategory)))),
         ADMIN_MAX_RETRY_COUNT, db)"
    by (intro admin_retry_failing [where e = "\<lambda>_. new_Error NoTargetCategory"])
       (simp_all add: ADMIN_MAX_RETRY_COUNT_def)
  then show "fst (deleteCategory env now item db c)
              = (Inl (new_Error (CategoryDeleteFailed NoTargetCategory)), ADMIN_MAX_RETRY_COUNT, db)"
    by (simp add: del_gate [OF auth nf])
next
  assume a: "Some (VStr c) \<in> (\<lambda>cat. field cat ''id'') ` set cats
            \<and> \<not> (postsInCategory db c \<noteq> [] \<and> remaining cats c = [])"
  then have mem: "Some (VStr c) \<in> (\<lambda>cat. field cat ''id'') ` set cats"
    and ok: "\<not> (postsInCategory db c \<noteq> [] \<and> remaining cats c = [])" by blast+
  from del_try_ok [OF doc arr ids dist pd mem ok, of now] obtain db' sd' where
    t: "deleteCategory_try no_faults now c db = (Inr True, db')"
    and rest: "getDoc db' SETTINGS_COLLECTION GLOBAL_SETTINGS_ID = Some sd'"
      "map_of sd' ''categories'' = Some (VArr (remaining cats c))"
      "\<forall>j d. getDoc db POSTS_COLLECTION j = Some d \<and> map_of d ''category'' \<noteq> Some (VStr c)
            \<longrightarrow> getDoc db' POSTS_COLLECTION j = Some d"
      "\<forall>j d. getDoc db POSTS_COLLECTION j = Some d \<and> map_of d ''category'' = Some (VStr c)
            \<longrightarrow> (\<exists>d' t rest. getDoc db' POSTS_COLLECTION j = Some d'
                    \<and> remaining cats c = t # rest \<and> map_of d' ''category'' = field t ''id'')"
    by blast
  from t have "admin_retry (\<lambda>k. deleteCategory_try no_faults now c) CategoryDeleteFailed 0 db
      = (Inr True, Suc 0, db')"
    by (intro admin_retry_success) (simp_all add: ADMIN_MAX_RETRY_COUNT_def)
  then have "fst (deleteCategory env now item db c) = (Inr True, 1, db')"
    by (simp add: del_gate [OF auth nf])
  with rest show "\<exists>db' sd'. fst (deleteCategory env now item db c) = (Inr True, 1, db')
               \<and> getDoc db' SETTINGS_COLLECTION GLOBAL_SETTINGS_ID = Some sd'
               \<and> map_of sd' ''categories'' = Some (VArr (remaining cats c))
               \<and> (\<forall>j d. getDoc db POSTS_COLLECTION j = Some d
                      \<and> map_of d ''category'' \<noteq> Some (VStr c)
                      \<longrightarrow> getDoc db' POSTS_COLLECTION j = Some d)
               \<and> (\<forall>j d. getDoc db POSTS_COLLECTION j = Some d
                      \<and> map_of d ''category'' = Some (VStr c)
                      \<longrightarrow> (\<exists>d' t rest. getDoc db' POSTS_COLLECTION j = Some d'
                             \<and> remaining cats c = t # rest
                             \<and> map_of d' ''category'' = field t ''id''))"
    by blast
qed


theorem deleteCategory_spec_witness:
  "\<exists>db' sd' d'. fst (deleteCategory (\<lambda>_. no_faults) 5 admin_item db_categories ''tech'')
        = (Inr True, 1, db')
     \<and> getDoc db' SETTINGS_COLLECTION GLOBAL_SETTINGS_ID = Some sd'
     \<and> map_of sd' ''categories'' = Some (VArr [newCategory ''general'' ''General'' None])
     \<and> getDoc db' POSTS_COLLECTION ''p1'' = Some d'
     \<and> map_of d' ''category'' = Some (VStr ''general'')"
proof -
  let ?cats = "[newCategory ''general'' ''General'' None, newCategory ''tech'' ''Tech'' None]"
  have auth: "fst (getAdminSession 5 admin_item) \<noteq> None" by code_simp
  have nf: "\<forall>k. (\<lambda>_. no_faults) k = no_faults" by simp
  have doc: "getDoc db_categories SETTINGS_COLLECTION GLOBAL_SETTINGS_ID = Some settings1"
    by code_simp
  have arr: "map_of settings1 ''categories'' = Some (VArr ?cats)" by code_simp
  have ids: "\<forall>cat \<in> set ?cats. \<exists>s. s \<noteq> [] \<and> field cat ''id'' = Some (VStr s)"
    by (simp add: newCategory_def)
  have dist: "distinct (map (\<lambda>cat. field cat ''id'') ?cats)" by (simp add: newCategory_def)
  have pd: "distinct (map fst (db_categories POSTS_COLLECTION))" by code_simp
  have mem: "Some (VStr ''tech'') \<in> (\<lambda>cat. field cat ''id'') ` set ?cats"
    by (simp add: newCategory_def)
  have rem: "remaining ?cats ''tech'' = [newCategory ''general'' ''General'' None]" by code_simp
  have p1: "getDoc db_categories POSTS_COLLECTION ''p1''
              = Some (AList.update ''category'' (VStr ''tech'') post1)" by code_simp
  have c1: "map_of (AList.update ''category'' (VStr ''tech'') post1) ''category''
              = Some (VStr ''tech'')" by code_simp
  have g: "field (newCategory ''general'' ''General'' None) ''id'' = Some (VStr ''general'')"
    by code_simp
  have ok: "\<not> (postsInCategory db_categories ''tech'' \<noteq> [] \<and> remaining ?cats ''tech'' = [])"
    by (simp add: rem)
  note spec = deleteCategory_spec [OF auth nf doc arr ids dist pd, of "''tech''"]
  from spec [THEN conjunct2, THEN conjunct2, THEN mp, OF conjI [OF mem ok]]
  obtain db' sd' where r: "fst (deleteCategory (\<lambda>_. no_faults) 5 admin_item db_categories ''tech'')
        = (Inr True, 1, db')"
    and s: "getDoc db' SETTINGS_COLLECTION GLOBAL_SETTINGS_ID = Some sd'"
      "map_of sd' ''categories'' = Some (VArr (remaining ?cats ''tech''))"
    and m: "\<forall>j d. getDoc db_categories POSTS_COLLECTION j = Some d
                      \<and> map_of d ''category'' = Some (VStr ''tech'')
                      \<longrightarrow> (\<exists>d' t rest. getDoc db' POSTS_COLLECTION j = Some d'
                             \<and> remaining ?cats ''tech'' = t # rest
                             \<and> map_of d' ''category'' = field t ''id'')"
    by blast
  from m p1 c1 obtain d' t rest where "getDoc db' POSTS_COLLECTION ''p1'' = Some d'"
    "remaining ?cats ''tech'' = t # rest" "map_of d' ''category'' = field t ''id''"
    by blast
  then have "getDoc db' POSTS_COLLECTION ''p1'' = Some d'"
    "map_of d' ''category'' = Some (VStr ''general'')"
    using g by (simp_all add: rem)
  with r s show ?thesis unfolding rem by blast
qed

section \<open>Properties of the retry loops\<close>








section \<open>Properties of the admin gate\<close>

lemma no_session:
  "item = NoItem \<or> (\<exists>a t. item = Stored a \<and> expiresAt a = Some t \<and> t < now) \<Longrightarrow>
   verifyAdminAuth now item = (Inl (new_Error AdminAuthRequired), NoItem)"
  by (auto simp: verifyAdminAuth_def isAdminAuthenticated_def getAdminSession_def)

text \<open>
  C10: when no admin session is stored, or the stored session's \<open>expiresAt\<close> is earlier
  than now, each of \<open>addCategory\<close>, \<open>updateCategory\<close>, \<open>deleteCategory\<close>,
  \<open>reorderCategories\<close>, \<open>backupData\<close> and \<open>restoreData\<close> throws the
  admin-authorization error before its first attempt: whatever the store holds and
  whatever the SDK would answer, the store is returned unchanged (the expired session is
  removed from local storage).
\<close>

theorem admin_gate_first:
  assumes "item = NoItem \<or> (\<exists>a t. item = Stored a \<and> expiresAt a = Some t \<and> t < now)"
  shows "addCategory env now item db name icon = ((Inl (new_Error AdminAuthRequired), 0, db), NoItem)
       \<and> updateCategory env now item db categoryId name icon
            = ((Inl (new_Error AdminAuthRequired), 0, db), NoItem)
       \<and> deleteCategory env now item db categoryId
            = ((Inl (new_Error AdminAuthRequired), 0, db), NoItem)
       \<and> reorderCategories env now item db sortedCategories
            = ((Inl (new_Error AdminAuthRequired), 0, db), NoItem)
       \<and> backupData benv now item db collections includeUsers
            = (Inl (new_Error AdminAuthRequired), NoItem)
       \<and> restoreData legacy denv cenv now item db jsonData collections overwrite deleteBeforeRestore
            = ((Inl (new_Error AdminAuthRequired), db), NoItem)"
  using no_session [OF assms]
  by (simp add: addCategory_def updateCategory_def deleteCategory_def reorderCategories_def
      admin_gate_def backupData_def restoreData_def)

theorem admin_gate_first_witness:
  "deleteCategory (\<lambda>_. no_faults) 7200001 expired_item db_categories ''tech''
     = ((Inl (new_Error AdminAuthRequired), 0, db_categories), NoItem)
   \<and> restoreData (\<lambda>_. None) (\<lambda>_ _. no_faults) (\<lambda>_. None) 5 NoItem db_categories None
        default_collections True True
     = ((Inl (new_Error AdminAuthRequired), db_categories), NoItem)"
proof -
  have e: "expired_item = NoItem \<or>
      (\<exists>a t. expired_item = Stored a \<and> expiresAt a = Some t \<and> t < 7200001)"
    by (simp add: expired_item_def)
  have n: "NoItem = NoItem \<or> (\<exists>a t. NoItem = Stored a \<and> expiresAt a = Some t \<and> t < 5)"
    by simp
  note a = admin_gate_first [OF e, THEN conjunct2, THEN conjunct2, THEN conjunct1]
  note b = admin_gate_first [OF n, THEN conjunct2, THEN conjunct2, THEN conjunct2,
             THEN conjunct2, THEN conjunct2]
  show ?thesis by (intro conjI) (rule a, rule b)
qed

section \<open>Validation failures\<close>








section \<open>Properties of backup and restore\<close>










lemma set_all_Nil [simp]: "set_all cn [] st = st"
  by (simp add: set_all_def)

lemma set_all_Cons [simp]: "set_all cn ((i, d) # c) st = set_all cn c (setDoc st cn i d)"
  by (simp add: set_all_def)














end
